theory Spec2Isabelle
  imports Complex_Main
begin

section \<open>Audio Processing Lab: the DSP effects of backend/services/audio_effects.py\<close>

text \<open>
  The effects are pure functions from a numpy array and a sample rate to a numpy array.
  A sample is a \<open>real\<close>: the arithmetic on samples is exact, where numpy computes in
  float32 and float64. Where a float decides a sample index, in \<open>trim_audio\<close>, the model
  rounds as the code does. A one-dimensional array (\<open>signal.ndim == 1\<close>) is \<open>Mono\<close>, a
  two-dimensional array of shape \<open>(channels, samples)\<close> is \<open>Multi\<close>, the list of its rows.
  The rows of an array have one length; \<open>rectangular\<close> says so of a \<open>Multi\<close> value.
\<close>

type_synonym sample = real

datatype signal = Mono "sample list" | Multi "sample list list"

text \<open>
  Every way the modelled code leaves its normal path. The first seven are the
  \<open>ValueError\<close>s raised by \<open>trim_audio\<close> and by numpy (\<open>np.max\<close> of an array without
  elements, \<open>np.zeros\<close> of a negative length, an assignment between slices of different
  lengths, \<open>np.stack\<close> of no rows or of rows of different lengths),
  \<open>IndexError\<close> is \<open>signal[1]\<close> on an array with fewer than two rows,
  \<open>ValidationError\<close> is pydantic's, with the offending fields. \<open>NotANumber\<close> is not an
  exception: numpy goes on with \<open>nan\<close> samples there (division by a zero sample rate,
  square root of a negative number), which \<open>real\<close> does not have. \<open>External\<close> is a failure
  inside librosa or scipy.
\<close>

datatype error =
    StartNegative
  | EndExceedsDuration real real
  | StartNotBeforeEnd
  | EmptyReduction
  | NegativeDimension
  | ShapeMismatch
  | StackError
  | IndexError
  | ZeroDivisionError
  | ValidationError "string list"
  | NotANumber
  | External string

definition then_do :: "error + 'a \<Rightarrow> ('a \<Rightarrow> error + 'b) \<Rightarrow> error + 'b" where
  "then_do r f = (case r of Inl e \<Rightarrow> Inl e | Inr x \<Rightarrow> f x)"

subsection \<open>Arrays\<close>

fun flatten :: "signal \<Rightarrow> sample list" where
  "flatten (Mono xs) = xs"
| "flatten (Multi rows) = concat rows"

fun smap :: "(sample \<Rightarrow> sample) \<Rightarrow> signal \<Rightarrow> signal" where
  "smap f (Mono xs) = Mono (map f xs)"
| "smap f (Multi rows) = Multi (map (map f) rows)"

fun channels :: "signal \<Rightarrow> sample list list" where
  "channels (Mono xs) = [xs]"
| "channels (Multi rows) = rows"

text \<open>An operation on each row.\<close>

fun map_channels :: "(real list \<Rightarrow> real list) \<Rightarrow> signal \<Rightarrow> signal" where
  "map_channels f (Mono xs) = Mono (f xs)"
| "map_channels f (Multi rows) = Multi (map f rows)"

text \<open>\<open>len(signal)\<close> of a one-dimensional array, \<open>signal.shape[1]\<close> of a two-dimensional one
  (an array without rows is given no samples).\<close>

fun total_samples :: "signal \<Rightarrow> nat" where
  "total_samples (Mono xs) = length xs"
| "total_samples (Multi []) = 0"
| "total_samples (Multi (row # rows)) = length row"

definition rectangular :: "signal \<Rightarrow> bool" where
  "rectangular s = list_all (\<lambda>row. length row = total_samples s) (channels s)"

text \<open>\<open>np.max\<close>: the largest element; raises on an array without elements.\<close>

fun np_max :: "real list \<Rightarrow> error + real" where
  "np_max [] = Inl EmptyReduction"
| "np_max (x # xs) = Inr (fold max xs x)"

text \<open>\<open>np.max(np.abs(signal))\<close>, the peak over all channels.\<close>

definition peak :: "signal \<Rightarrow> error + real" where
  "peak s = np_max (map abs (flatten s))"

subsection \<open>Normalisation (audio_effects.py, lines 23-32)\<close>

definition peak_normalize :: "signal \<Rightarrow> real \<Rightarrow> error + signal" where
  "peak_normalize signal target_peak =
     then_do (peak signal) (\<lambda>p.
       if p = 0 then Inr signal
       else Inr (smap (\<lambda>x. x * (target_peak / p)) signal))"

text \<open>The default of the parameter \<open>target_peak\<close>.\<close>

definition default_target_peak :: real where
  "default_target_peak = 95 / 100"

subsection \<open>Reverse (lines 39-49)\<close>

fun reverse_audio :: "signal \<Rightarrow> int \<Rightarrow> signal" where
  "reverse_audio (Mono xs) sr = Mono (rev xs)"
| "reverse_audio (Multi rows) sr = Multi (map rev rows)"


subsection \<open>Python and numpy helpers\<close>

text \<open>
  A Python float is a double. \<open>fl x\<close> is the double nearest to the real number \<open>x\<close>: round
  to nearest, ties to even, with 53 significant bits. The exponent is not limited (no
  overflow to \<open>inf\<close>, no subnormal numbers). \<open>trim_audio\<close>, whose slice bounds are
  truncations of products, is modelled with the rounding of every float operation.
\<close>

definition round_even :: "real \<Rightarrow> int" where
  "round_even y =
     (let f = \<lfloor>y\<rfloor>; r = y - real_of_int f
      in if r < 1 / 2 \<or> (r = 1 / 2 \<and> even f) then f else f + 1)"

definition pow2 :: "int \<Rightarrow> real" where
  "pow2 e = (if 0 \<le> e then 2 ^ nat e else 1 / 2 ^ nat (- e))"

definition fl :: "real \<Rightarrow> real" where
  "fl x =
     (if x = 0 then 0
      else let ulp = pow2 (\<lfloor>log 2 \<bar>x\<bar>\<rfloor> - 52)
           in real_of_int (round_even (x / ulp)) * ulp)"

text \<open>\<open>int(x)\<close> of a float: truncation toward zero.\<close>

definition py_int :: "real \<Rightarrow> int" where
  "py_int x = (if 0 \<le> x then \<lfloor>x\<rfloor> else \<lceil>x\<rceil>)"

text \<open>A slice \<open>xs[start:stop]\<close>: a negative index counts from the end, and both indices
  are clamped to the list.\<close>

definition slice_index :: "nat \<Rightarrow> int \<Rightarrow> nat" where
  "slice_index n i = (if i < 0 then nat (int n + i) else min n (nat i))"

definition py_slice :: "'a list \<Rightarrow> int \<Rightarrow> int \<Rightarrow> 'a list" where
  "py_slice xs start stop =
     (let lo = slice_index (length xs) start; hi = slice_index (length xs) stop
      in take (hi - lo) (drop lo xs))"

definition np_zeros :: "int \<Rightarrow> error + real list" where
  "np_zeros n = (if n < 0 then Inl NegativeDimension else Inr (replicate (nat n) 0))"

text \<open>\<open>np.stack(rows, axis=0)\<close>.\<close>

fun np_stack :: "real list list \<Rightarrow> error + signal" where
  "np_stack [] = Inl StackError"
| "np_stack (row # rows) =
     (if list_all (\<lambda>r. length r = length row) rows then Inr (Multi (row # rows))
      else Inl StackError)"

text \<open>A list comprehension whose element may raise: the first error wins.\<close>

fun collect :: "(error + 'a) list \<Rightarrow> error + 'a list" where
  "collect [] = Inr []"
| "collect (r # rs) = then_do r (\<lambda>x. then_do (collect rs) (\<lambda>xs. Inr (x # xs)))"

text \<open>The two rows \<open>signal[0]\<close> and \<open>signal[1]\<close>, after a mono signal has been stacked
  with its copy (\<open>np.stack([signal, signal.copy()], axis=0)\<close>).\<close>

fun to_stereo :: "signal \<Rightarrow> error + (real list \<times> real list)" where
  "to_stereo (Mono xs) = Inr (xs, xs)"
| "to_stereo (Multi (left # right # rest)) = Inr (left, right)"
| "to_stereo (Multi rows) = Inl IndexError"

subsection \<open>Trim (lines 189-230)\<close>

text \<open>
  The two times are floats: the model rounds the number it is given to a double (a double
  stays as it is). The duration is the rounded quotient of two integers, and each slice
  bound is the truncation of a rounded product (the sample rate, an integer, becomes a
  float first).
\<close>

definition trim_audio :: "signal \<Rightarrow> int \<Rightarrow> real \<Rightarrow> real option \<Rightarrow> error + signal" where
  "trim_audio signal sr start_time_arg end_time_arg =
     (if sr = 0 then Inl ZeroDivisionError
      else
        let start_time = fl start_time_arg;
            duration = fl (real (total_samples signal) / real_of_int sr);
            end_time = (case end_time_arg of None \<Rightarrow> duration | Some e \<Rightarrow> fl e)
        in if start_time < 0 then Inl StartNegative
           else if end_time > duration then Inl (EndExceedsDuration end_time duration)
           else if start_time \<ge> end_time then Inl StartNotBeforeEnd
           else
             let start_sample = py_int (fl (start_time * fl (real_of_int sr)));
                 end_sample = py_int (fl (end_time * fl (real_of_int sr)))
             in case signal of
                  Mono xs \<Rightarrow> Inr (Mono (py_slice xs start_sample end_sample))
                | Multi rows \<Rightarrow>
                    Inr (Multi (map (\<lambda>row. py_slice row start_sample end_sample) rows)))"

subsection \<open>Reverb (lines 83-127)\<close>

definition num_reflections :: nat where
  "num_reflections = 5"

text \<open>\<open>int(sr * delay_ms / 1000)\<close>.\<close>

definition delay_in_samples :: "int \<Rightarrow> int \<Rightarrow> int" where
  "delay_in_samples sr delay_ms = py_int (real_of_int (sr * delay_ms) / 1000)"

text \<open>\<open>output[:n] = values\<close>. (numpy would also spread a value of one element over a
  longer slice; \<open>reverb\<close> cannot get there, its output being longer than the signal
  whenever \<open>np.zeros\<close> has not raised.)\<close>

definition assign_prefix :: "real list \<Rightarrow> nat \<Rightarrow> real list \<Rightarrow> error + real list" where
  "assign_prefix output n values =
     (if length values = min n (length output) then Inr (values @ drop n output)
      else Inl ShapeMismatch)"

text \<open>\<open>output[offset:end] += values\<close>.\<close>

definition add_into :: "real list \<Rightarrow> nat \<Rightarrow> nat \<Rightarrow> real list \<Rightarrow> real list" where
  "add_into output offset end values =
     take offset output
     @ map2 (+) (take (end - offset) (drop offset output)) values
     @ drop end output"

text \<open>The body of the loop over \<open>i\<close>, on one row.\<close>

definition reflection :: "real list \<Rightarrow> nat \<Rightarrow> nat \<Rightarrow> real \<Rightarrow> nat \<Rightarrow> real list \<Rightarrow> real list" where
  "reflection row len delay_samples decay i output =
     (let offset = delay_samples * i;
          gain = decay ^ i;
          end = (if offset + len > length output then length output else offset + len)
      in add_into output offset end (map (\<lambda>x. x * gain) (take (end - offset) row)))"

definition reverb_row :: "real list \<Rightarrow> nat \<Rightarrow> int \<Rightarrow> real \<Rightarrow> real list \<Rightarrow> error + real list" where
  "reverb_row zeros len delay_samples decay row =
     then_do (assign_prefix zeros len row) (\<lambda>output.
       Inr (fold (reflection row len (nat delay_samples) decay) [1..<num_reflections + 1] output))"

text \<open>The function up to its last line: the mix of the signal and its reflections.\<close>

definition reverb_mix :: "signal \<Rightarrow> int \<Rightarrow> real \<Rightarrow> int \<Rightarrow> error + signal" where
  "reverb_mix signal sr decay delay_ms =
     (let delay_samples = delay_in_samples sr delay_ms;
          len = total_samples signal;
          out_length = int len + delay_samples * int num_reflections
      in then_do (np_zeros out_length) (\<lambda>zeros.
           case signal of
             Mono xs \<Rightarrow>
               then_do (reverb_row zeros len delay_samples decay xs) (\<lambda>output. Inr (Mono output))
           | Multi rows \<Rightarrow>
               then_do (collect (map (reverb_row zeros len delay_samples decay) rows))
                 (\<lambda>output. Inr (Multi output))))"

definition reverb :: "signal \<Rightarrow> int \<Rightarrow> real \<Rightarrow> int \<Rightarrow> error + signal" where
  "reverb signal sr decay delay_ms =
     then_do (reverb_mix signal sr decay delay_ms) (\<lambda>output.
       peak_normalize output default_target_peak)"

subsection \<open>Stereo widening (lines 134-182)\<close>

definition stereo_widen :: "signal \<Rightarrow> int \<Rightarrow> int \<Rightarrow> real \<Rightarrow> error + signal" where
  "stereo_widen signal sr delay_ms gain_diff_db =
     (let delay_samples = delay_in_samples sr delay_ms;
          gain_factor = 10 powr (- gain_diff_db / 20)
      in then_do (to_stereo signal) (\<lambda>(left, right).
         then_do (np_zeros delay_samples) (\<lambda>zeros.
           let right_delayed = map (\<lambda>x. x * gain_factor) (zeros @ right);
               left_padded = left @ zeros;
               mid = map2 (\<lambda>l r. (l + r) / 2) left_padded right_delayed;
               side = map (\<lambda>x. x * (13 / 10))
                        (map2 (\<lambda>l r. (l - r) / 2) left_padded right_delayed);
               new_left = map2 (+) mid side;
               new_right = map2 (-) mid side
           in then_do (np_stack [new_left, new_right]) (\<lambda>output.
                peak_normalize output default_target_peak))))"

subsection \<open>8D audio (lines 237-299)\<close>

text \<open>Lines 269-291: the two panned channels. With a sample rate of zero, or a pan
  curve that leaves \<open>[0, 1]\<close> (an intensity beyond 1), numpy computes \<open>nan\<close> samples and
  the function returns an array of \<open>nan\<close>.\<close>

definition eight_d_pan :: "signal \<Rightarrow> int \<Rightarrow> real \<Rightarrow> real \<Rightarrow> error + (real list \<times> real list)" where
  "eight_d_pan signal sr pan_speed_hz intensity =
     then_do (to_stereo signal) (\<lambda>(left, right).
       let num_samples = length left in
       if sr = 0 \<and> num_samples > 0 then Inl NotANumber
       else
         let t = map (\<lambda>n. real n / real_of_int sr) [0..<num_samples];
             pan_curve = map (\<lambda>t. 1 / 2 + 1 / 2 * sin (2 * pi * pan_speed_hz * t)) t;
             pan_curve = map (\<lambda>c. 1 / 2 + intensity * (c - 1 / 2)) pan_curve
         in if list_ex (\<lambda>c. c < 0 \<or> 1 < c) pan_curve then Inl NotANumber
            else
              let right_gain = map sqrt pan_curve;
                  left_gain = map (\<lambda>c. sqrt (1 - c)) pan_curve;
                  mono_mix = map2 (\<lambda>a b. (a + b) / 2) left right;
                  left_out = map2 (*) mono_mix left_gain;
                  right_out = map2 (*) mono_mix right_gain
              in Inr (left_out, right_out))"

text \<open>Lines 294-296.\<close>

definition crossfeed_step :: "real \<Rightarrow> real list \<times> real list \<Rightarrow> real list \<times> real list" where
  "crossfeed_step crossfeed panned =
     (case panned of (left_out, right_out) \<Rightarrow>
        if crossfeed > 0 then
          let left_out = map2 (\<lambda>l r. l * (1 - crossfeed) + r * crossfeed) left_out right_out;
              right_out = map2 (\<lambda>r l. r * (1 - crossfeed) + l * crossfeed) right_out left_out
          in (left_out, right_out)
        else (left_out, right_out))"

definition eight_d_audio :: "signal \<Rightarrow> int \<Rightarrow> real \<Rightarrow> real \<Rightarrow> real \<Rightarrow> error + signal" where
  "eight_d_audio signal sr pan_speed_hz intensity crossfeed =
     then_do (eight_d_pan signal sr pan_speed_hz intensity) (\<lambda>panned.
       case crossfeed_step crossfeed panned of (left_out, right_out) \<Rightarrow>
         then_do (np_stack [left_out, right_out]) (\<lambda>output.
           peak_normalize output default_target_peak))"

subsection \<open>Libraries\<close>

text \<open>
  \<open>librosa.effects.pitch_shift(y, sr, n_steps)\<close> and \<open>scipy.signal.sosfilt(sos, x)\<close> are
  not code of this repository: the model takes them as parameters, and lets them fail.
\<close>

record externals =
  librosa_pitch_shift :: "real list \<Rightarrow> int \<Rightarrow> real \<Rightarrow> error + real list"
  sosfilt :: "real list list \<Rightarrow> real list \<Rightarrow> error + real list"

subsection \<open>Pitch shift (lines 56-76)\<close>

definition pitch_shift :: "externals \<Rightarrow> signal \<Rightarrow> int \<Rightarrow> real \<Rightarrow> error + signal" where
  "pitch_shift ext signal sr semitones =
     then_do
       (case signal of
          Mono xs \<Rightarrow> then_do (librosa_pitch_shift ext xs sr semitones) (\<lambda>ys. Inr (Mono ys))
        | Multi rows \<Rightarrow>
            then_do (collect (map (\<lambda>row. librosa_pitch_shift ext row sr semitones) rows)) np_stack)
       (\<lambda>shifted. peak_normalize shifted default_target_peak)"

subsection \<open>Equalizer (lines 306-397)\<close>

definition BANDS :: "(string \<times> real) list" where
  "BANDS =
     [(''sub_bass'', 60), (''bass'', 170), (''low_mid'', 500), (''mid'', 1000),
      (''high_mid'', 3000), (''presence'', 6000), (''brilliance'', 12000)]"

definition peaking_eq_sos :: "real \<Rightarrow> real \<Rightarrow> real \<Rightarrow> int \<Rightarrow> real list" where
  "peaking_eq_sos freq gain_db q fs =
     (let A = 10 powr (gain_db / 40);
          w0 = 2 * pi * freq / real_of_int fs;
          alpha = sin w0 / (2 * q);
          b0 = 1 + alpha * A;
          b1 = - 2 * cos w0;
          b2 = 1 - alpha * A;
          a0 = 1 + alpha / A;
          a1 = - 2 * cos w0;
          a2 = 1 - alpha / A
      in [b0 / a0, b1 / a0, b2 / a0, 1, a1 / a0, a2 / a0])"

text \<open>The loop that builds \<open>sos_sections\<close>, over the bands in their order.\<close>

fun sos_sections :: "(string \<times> real) list \<Rightarrow> (string \<rightharpoonup> real) \<Rightarrow> int \<Rightarrow> real list list" where
  "sos_sections [] band_gains_db sr = []"
| "sos_sections ((band_name, centre_freq) # bands) band_gains_db sr =
     (let gain = (case band_gains_db band_name of None \<Rightarrow> 0 | Some g \<Rightarrow> g)
      in if \<bar>gain\<bar> < 1 / 100 then sos_sections bands band_gains_db sr
         else if centre_freq \<ge> real_of_int sr / 2 then sos_sections bands band_gains_db sr
         else peaking_eq_sos centre_freq gain (14 / 10) sr # sos_sections bands band_gains_db sr)"

text \<open>A band that the loop skips.\<close>

definition inactive :: "(string \<rightharpoonup> real) \<Rightarrow> int \<Rightarrow> string \<times> real \<Rightarrow> bool" where
  "inactive band_gains_db sr band =
     (\<bar>case band_gains_db (fst band) of None \<Rightarrow> 0 | Some g \<Rightarrow> g\<bar> < 1 / 100
      \<or> snd band \<ge> real_of_int sr / 2)"

definition equalizer :: "externals \<Rightarrow> signal \<Rightarrow> int \<Rightarrow> (string \<rightharpoonup> real) option \<Rightarrow> error + signal" where
  "equalizer ext signal sr band_gains_arg =
     (let band_gains_db = (case band_gains_arg of None \<Rightarrow> Map.empty | Some g \<Rightarrow> g);
          sos_array = sos_sections BANDS band_gains_db sr
      in if sos_array = [] then Inr signal
         else
           then_do
             (case signal of
                Mono xs \<Rightarrow> then_do (sosfilt ext sos_array xs) (\<lambda>ys. Inr (Mono ys))
              | Multi rows \<Rightarrow> then_do (collect (map (sosfilt ext sos_array) rows)) np_stack)
             (\<lambda>output. peak_normalize output default_target_peak))"

subsection \<open>Parameter schemas (backend/models/schemas.py)\<close>

text \<open>
  The parameters of a request are a dictionary, here of numbers. A field of a schema has
  a name, a default (none when the field is required) and its bounds; pydantic reports
  the fields that are missing or out of bounds, and ignores keys it does not know.
\<close>

type_synonym field = "string \<times> real option \<times> (real \<Rightarrow> bool)"

definition is_integral :: "real \<Rightarrow> bool" where
  "is_integral v = (real_of_int \<lfloor>v\<rfloor> = v)"

definition TrimParams :: "field list" where
  "TrimParams = [(''start_time'', None, \<lambda>v. 0 \<le> v), (''end_time'', None, \<lambda>v. 0 < v)]"

definition PitchShiftParams :: "field list" where
  "PitchShiftParams = [(''semitones'', Some 0, \<lambda>v. - 12 \<le> v \<and> v \<le> 12)]"

definition ReverbParams :: "field list" where
  "ReverbParams =
     [(''decay'', Some (1 / 2), \<lambda>v. 1 / 10 \<le> v \<and> v \<le> 9 / 10),
      (''delay_ms'', Some 100, \<lambda>v. is_integral v \<and> 50 \<le> v \<and> v \<le> 300)]"

definition StereoWidenParams :: "field list" where
  "StereoWidenParams =
     [(''delay_ms'', Some 10, \<lambda>v. is_integral v \<and> 5 \<le> v \<and> v \<le> 20),
      (''gain_diff_db'', Some (3 / 2), \<lambda>v. 0 \<le> v \<and> v \<le> 6)]"

definition EightDAudioParams :: "field list" where
  "EightDAudioParams =
     [(''pan_speed_hz'', Some (15 / 100), \<lambda>v. 5 / 100 \<le> v \<and> v \<le> 1),
      (''intensity'', Some (8 / 10), \<lambda>v. 1 / 10 \<le> v \<and> v \<le> 1),
      (''crossfeed'', Some (3 / 10), \<lambda>v. 0 \<le> v \<and> v \<le> 6 / 10)]"

definition EqualizerParams :: "field list" where
  "EqualizerParams =
     map (\<lambda>name. (name, Some 0, \<lambda>v. - 12 \<le> v \<and> v \<le> 12))
       [''sub_bass'', ''bass'', ''low_mid'', ''mid'', ''high_mid'', ''presence'', ''brilliance'']"

definition invalid_fields :: "field list \<Rightarrow> (string \<rightharpoonup> real) \<Rightarrow> string list" where
  "invalid_fields schema params =
     map fst (filter (\<lambda>(name, dflt, ok).
                 case params name of None \<Rightarrow> dflt = None | Some v \<Rightarrow> \<not> ok v) schema)"

text \<open>\<open>Schema(**params)\<close>: the validated fields, each with its value or its default.\<close>

definition validated :: "field list \<Rightarrow> (string \<rightharpoonup> real) \<Rightarrow> error + (string \<Rightarrow> real)" where
  "validated schema params =
     (if invalid_fields schema params \<noteq> [] then Inl (ValidationError (invalid_fields schema params))
      else Inr (\<lambda>name. case params name of
                  Some v \<Rightarrow> v
                | None \<Rightarrow> (case map_of schema name of Some (Some d, ok) \<Rightarrow> d | _ \<Rightarrow> 0)))"

subsection \<open>The dispatcher and the pipeline (backend/services/audio_pipeline.py)\<close>

datatype EffectName =
  REVERSE | PITCH_SHIFT | REVERB | STEREO_WIDEN | TRIM | EIGHT_D_AUDIO | EQUALIZER

text \<open>\<open>_apply_effect\<close> (lines 61-119).\<close>

fun apply_effect ::
  "externals \<Rightarrow> signal \<Rightarrow> int \<Rightarrow> EffectName \<Rightarrow> (string \<rightharpoonup> real) \<Rightarrow> error + signal" where
  "apply_effect ext signal sr REVERSE params = Inr (reverse_audio signal sr)"
| "apply_effect ext signal sr PITCH_SHIFT params =
     then_do (validated PitchShiftParams params) (\<lambda>v.
       pitch_shift ext signal sr (v ''semitones''))"
| "apply_effect ext signal sr REVERB params =
     then_do (validated ReverbParams params) (\<lambda>v.
       reverb signal sr (v ''decay'') \<lfloor>v ''delay_ms''\<rfloor>)"
| "apply_effect ext signal sr STEREO_WIDEN params =
     then_do (validated StereoWidenParams params) (\<lambda>v.
       stereo_widen signal sr \<lfloor>v ''delay_ms''\<rfloor> (v ''gain_diff_db''))"
| "apply_effect ext signal sr TRIM params =
     then_do (validated TrimParams params) (\<lambda>v.
       trim_audio signal sr (v ''start_time'') (Some (v ''end_time'')))"
| "apply_effect ext signal sr EIGHT_D_AUDIO params =
     then_do (validated EightDAudioParams params) (\<lambda>v.
       eight_d_audio signal sr (v ''pan_speed_hz'') (v ''intensity'') (v ''crossfeed''))"
| "apply_effect ext signal sr EQUALIZER params =
     then_do (validated EqualizerParams params) (\<lambda>v.
       equalizer ext signal sr
         (Some [''sub_bass'' \<mapsto> v ''sub_bass'', ''bass'' \<mapsto> v ''bass'',
                ''low_mid'' \<mapsto> v ''low_mid'', ''mid'' \<mapsto> v ''mid'',
                ''high_mid'' \<mapsto> v ''high_mid'', ''presence'' \<mapsto> v ''presence'',
                ''brilliance'' \<mapsto> v ''brilliance'']))"

text \<open>\<open>process_audio\<close>, steps 4 and 5 (lines 160-164), on the signal that step 3 has
  loaded: apply the effect, then normalise.\<close>

definition process_audio ::
  "externals \<Rightarrow> signal \<Rightarrow> int \<Rightarrow> EffectName \<Rightarrow> (string \<rightharpoonup> real) \<Rightarrow> error + signal" where
  "process_audio ext signal sr effect parameters =
     then_do (apply_effect ext signal sr effect parameters) (\<lambda>processed_signal.
       peak_normalize processed_signal default_target_peak)"

subsection \<open>The words of the specification\<close>

text \<open>The error kinds of the specification (its section 7), and the kind it gives to
  each failure of \<open>trim\<close>: "fails with InvalidRange if start_time_s < 0, if
  end_time_s > duration, or if start_time_s >= end_time_s".\<close>

datatype spec_error = InvalidParameter | InvalidRange | EmptySignal | UnknownEffect

fun spec_error_of :: "error \<Rightarrow> spec_error option" where
  "spec_error_of StartNegative = Some InvalidRange"
| "spec_error_of (EndExceedsDuration e d) = Some InvalidRange"
| "spec_error_of StartNotBeforeEnd = Some InvalidRange"
| "spec_error_of (ValidationError names) = Some InvalidParameter"
| "spec_error_of e = None"

text \<open>\<open>signal.ndim\<close>.\<close>
fun ndim :: "signal \<Rightarrow> nat" where
  "ndim (Mono xs) = 1"
| "ndim (Multi rows) = 2"

text \<open>The reverb of the specification (its section 4.4), for a delay of \<open>d\<close> samples: an
  output of \<open>N + d * K\<close> samples, zero but for the signal in its first \<open>N\<close> samples, to
  which reflection \<open>i = 1..K\<close> adds the signal, scaled by \<open>decay ^ i\<close>, from offset \<open>d * i\<close>.
  \<open>echo row d decay i j\<close> is what reflection \<open>i\<close> adds to sample \<open>j\<close>.\<close>

definition echo :: "real list \<Rightarrow> nat \<Rightarrow> real \<Rightarrow> nat \<Rightarrow> nat \<Rightarrow> real" where
  "echo row d decay i j =
     (if d * i \<le> j \<and> j < d * i + length row then row ! (j - d * i) * decay ^ i else 0)"

definition spec_reverb_row :: "nat \<Rightarrow> real \<Rightarrow> real list \<Rightarrow> real list" where
  "spec_reverb_row d decay row =
     map (\<lambda>j. (if j < length row then row ! j else 0)
              + sum_list (map (\<lambda>i. echo row d decay i j) [1..<num_reflections + 1]))
       [0..<length row + d * num_reflections]"

section \<open>Properties\<close>

subsection \<open>The peak\<close>

lemma then_do_Inr [simp]: "then_do (Inr x) f = f x"
  by (simp add: then_do_def)

lemma then_do_Inl [simp]: "then_do (Inl e) f = Inl e"
  by (simp add: then_do_def)

lemma np_max_Inr_iff: "np_max xs = Inr m \<longleftrightarrow> xs \<noteq> [] \<and> m = Max (set xs)"
proof (cases xs)
  case Nil
  then show ?thesis by simp
next
  case (Cons x ys)
  have "fold max ys x = Max (set (x # ys))"
    by (rule Max.set_eq_fold [symmetric])
  with Cons show ?thesis by auto
qed

lemma flatten_smap: "flatten (smap f s) = map f (flatten s)"
  by (cases s) (simp_all add: map_concat)

lemma Max_scaled:
  fixes S :: "real set"
  assumes "finite S" "S \<noteq> {}" "0 \<le> k"
  shows "Max ((\<lambda>x. x * k) ` S) = Max S * k"
proof -
  have "mono (\<lambda>x::real. x * k)"
    using assms(3) by (simp add: mono_def mult_right_mono)
  from mono_Max_commute [OF this assms(1,2)] show ?thesis
    by simp
qed

lemma peak_smap_scale:
  assumes "peak s = Inr p"
  shows "peak (smap (\<lambda>x. x * k) s) = Inr (p * \<bar>k\<bar>)"
proof -
  from assms have ne: "flatten s \<noteq> []" and p: "p = Max (set (map abs (flatten s)))"
    by (simp_all add: peak_def np_max_Inr_iff)
  have "set (map abs (map (\<lambda>x. x * k) (flatten s))) = (\<lambda>x. x * \<bar>k\<bar>) ` set (map abs (flatten s))"
    by (simp add: image_image abs_mult)
  moreover have "Max ((\<lambda>x. x * \<bar>k\<bar>) ` set (map abs (flatten s))) = Max (set (map abs (flatten s))) * \<bar>k\<bar>"
    using ne by (intro Max_scaled) simp_all
  ultimately show ?thesis
    using ne p by (simp add: peak_def np_max_Inr_iff flatten_smap)
qed

lemma peak_nonneg: "peak s = Inr p \<Longrightarrow> 0 \<le> p"
proof -
  assume "peak s = Inr p"
  then have ne: "flatten s \<noteq> []" and p: "p = Max (set (map abs (flatten s)))"
    by (simp_all add: peak_def np_max_Inr_iff)
  from ne obtain y ys where "flatten s = y # ys"
    by (cases "flatten s") auto
  then have "\<bar>y\<bar> \<in> set (map abs (flatten s))"
    by simp
  then have "\<bar>y\<bar> \<le> p"
    unfolding p by (intro Max_ge) simp_all
  then show ?thesis by simp
qed

lemma peak_normalize_peak:
  assumes "peak s = Inr p" "p \<noteq> 0"
  shows "peak (smap (\<lambda>x. x * (t / p)) s) = Inr \<bar>t\<bar>"
proof -
  have "0 < p" using peak_nonneg [OF assms(1)] assms(2) by simp
  then have "p * \<bar>t / p\<bar> = \<bar>t\<bar>" by (simp add: abs_mult)
  with peak_smap_scale [OF assms(1), of "t / p"] show ?thesis by simp
qed

lemma smap_id: "smap (\<lambda>x. x) s = s"
  by (cases s) (simp_all add: map_idI)

subsection \<open>Normalisation\<close>

text \<open>
  C1. When the peak \<open>p\<close> of a buffer (the largest absolute sample value over all channels)
  is not zero, \<open>peak_normalize\<close> returns the buffer with every sample multiplied by
  \<open>target_peak / p\<close>; the peak of the result is \<open>\<bar>target_peak\<bar>\<close>, which is \<open>target_peak\<close>
  itself for a target that is not negative. When the peak is zero the buffer is returned
  as it is.
\<close>

theorem peak_normalize_scales_to_target:
  "peak b = Inr p \<Longrightarrow>
     p = Max (set (map abs (flatten b))) \<and>
     (p \<noteq> 0 \<longrightarrow>
        peak_normalize b target_peak = Inr (smap (\<lambda>x. x * (target_peak / p)) b) \<and>
        peak (smap (\<lambda>x. x * (target_peak / p)) b) = Inr \<bar>target_peak\<bar> \<and>
        (0 \<le> target_peak \<longrightarrow> peak (smap (\<lambda>x. x * (target_peak / p)) b) = Inr target_peak)) \<and>
     (p = 0 \<longrightarrow> peak_normalize b target_peak = Inr b)"
proof (intro conjI impI)
  assume b: "peak b = Inr p"
  show "p = Max (set (map abs (flatten b)))"
    using b by (simp add: peak_def np_max_Inr_iff)
  show "peak_normalize b target_peak = Inr b" if "p = 0"
    using b that by (simp add: peak_normalize_def)
  show "peak_normalize b target_peak = Inr (smap (\<lambda>x. x * (target_peak / p)) b)" if "p \<noteq> 0"
    using b that by (simp add: peak_normalize_def)
  show "peak (smap (\<lambda>x. x * (target_peak / p)) b) = Inr \<bar>target_peak\<bar>" if "p \<noteq> 0"
    using that by (rule peak_normalize_peak [OF b])
  then show "peak (smap (\<lambda>x. x * (target_peak / p)) b) = Inr target_peak"
    if "p \<noteq> 0" "0 \<le> target_peak"
    using that by simp
qed

theorem peak_normalize_scales_to_target_witness:
  "peak (Mono [1 / 4, - 1 / 2]) = Inr (1 / 2) \<and>
   peak_normalize (Mono [1 / 4, - 1 / 2]) 1 = Inr (Mono [1 / 2, - 1]) \<and>
   peak (Mono [1 / 2, - 1]) = Inr 1 \<and>
   peak (Multi [[0], [0]]) = Inr 0 \<and>
   peak_normalize (Multi [[0], [0]]) 1 = Inr (Multi [[0], [0]])"
  using peak_normalize_scales_to_target [of "Mono [1 / 4, - 1 / 2]" "1 / 2" 1]
    peak_normalize_scales_to_target [of "Multi [[0], [0]]" 0 1]
  by (simp add: peak_def)

lemma peak_normalize_again:
  assumes "0 \<le> t" "peak_normalize b t = Inr b'"
  shows "peak_normalize b' t = Inr b'"
proof -
  from assms(2) obtain p where p: "peak b = Inr p"
    by (cases "peak b") (simp_all add: peak_normalize_def)
  show ?thesis
  proof (cases "p = 0")
    case True
    with p assms(2) have "b' = b" by (simp add: peak_normalize_def)
    with p True show ?thesis by (simp add: peak_normalize_def)
  next
    case False
    with p assms(2) have b': "b' = smap (\<lambda>x. x * (t / p)) b"
      by (simp add: peak_normalize_def)
    have pk: "peak b' = Inr t"
      unfolding b' using peak_normalize_peak [OF p False, of t] assms(1) by simp
    show ?thesis
      using pk by (simp add: peak_normalize_def smap_id)
  qed
qed


subsection \<open>Reverse\<close>

text \<open>
  C6. Reversing twice gives the buffer back, exactly. One reversal keeps the number of
  dimensions, the number of channels and the length of each channel, and sample \<open>i\<close> of a
  channel of the output is sample \<open>N - 1 - i\<close> of that channel of the input, \<open>N\<close> being
  the length of the channel.
\<close>

theorem reverse_audio_involution:
  "reverse_audio (reverse_audio b sr) sr = b \<and>
   ndim (reverse_audio b sr) = ndim b \<and>
   map length (channels (reverse_audio b sr)) = map length (channels b) \<and>
   (\<forall>c < length (channels b). \<forall>i < length (channels b ! c).
      channels (reverse_audio b sr) ! c ! i = channels b ! c ! (length (channels b ! c) - 1 - i))"
  by (cases b) (simp_all add: rev_nth comp_def map_idI)

theorem reverse_audio_involution_witness:
  "(1::nat) < length (channels (Multi [[1, 2, 3], [4, 5, 6]])) \<and>
   (0::nat) < length (channels (Multi [[1, 2, 3], [4, 5, 6]]) ! 1) \<and>
   channels (reverse_audio (Multi [[1, 2, 3], [4, 5, 6]]) 44100) ! 1 ! 0 = 6 \<and>
   reverse_audio (reverse_audio (Multi [[1, 2, 3], [4, 5, 6]]) 44100) 44100 = Multi [[1, 2, 3], [4, 5, 6]]"
  using reverse_audio_involution [of "Multi [[1, 2, 3], [4, 5, 6]]" 44100]
  by simp


subsection \<open>Doubles\<close>

lemma pow2_powr: "pow2 e = 2 powr real_of_int e"
  by (simp add: pow2_def powr_real_of_int inverse_eq_divide)

lemma pow2_pos [simp]: "0 < pow2 e"
  by (simp add: pow2_powr)

lemma pow2_nonzero [simp]: "pow2 e \<noteq> 0"
  using pow2_pos [of e] by linarith

lemma pow2_nonneg [simp]: "0 \<le> pow2 e"
  using pow2_pos [of e] by linarith

lemma pow2_add: "pow2 (a + b) = pow2 a * pow2 b"
  by (simp add: pow2_powr powr_add)

lemma pow2_le_iff [simp]: "pow2 a \<le> pow2 b \<longleftrightarrow> a \<le> b"
  by (simp add: pow2_powr)

lemma pow2_less_iff [simp]: "pow2 a < pow2 b \<longleftrightarrow> a < b"
  by (simp add: pow2_powr)

lemma pow2_nat: "0 \<le> e \<Longrightarrow> pow2 e = real_of_int (2 ^ nat e)"
  by (simp add: pow2_def)

lemma pow2_split: "pow2 e = pow2 n * pow2 (e - n)"
  using pow2_add [of n "e - n"] by simp

lemma pow2_52: "pow2 52 = real_of_int (2 ^ 52)" and pow2_53: "pow2 53 = real_of_int (2 ^ 53)"
  by (simp_all add: pow2_def)

lemma round_even_of_int [simp]: "round_even (real_of_int n) = n"
  by (simp add: round_even_def)

lemma round_even_bounds: "\<lfloor>y\<rfloor> \<le> round_even y \<and> round_even y \<le> \<lfloor>y\<rfloor> + 1"
  by (simp add: round_even_def Let_def)

lemma round_even_mono:
  assumes "y \<le> z"
  shows "round_even y \<le> round_even z"
proof (cases "\<lfloor>y\<rfloor> = \<lfloor>z\<rfloor>")
  case True
  with assms have "y - real_of_int \<lfloor>y\<rfloor> \<le> z - real_of_int \<lfloor>z\<rfloor>" by simp
  with True show ?thesis
    by (auto simp add: round_even_def Let_def)
next
  case False
  with assms have "\<lfloor>y\<rfloor> < \<lfloor>z\<rfloor>"
    using floor_mono [of y z] by linarith
  with round_even_bounds [of y] round_even_bounds [of z] show ?thesis
    by linarith
qed

lemma round_even_error: "\<bar>real_of_int (round_even y) - y\<bar> \<le> 1 / 2"
proof -
  have "real_of_int \<lfloor>y\<rfloor> \<le> y" "y < real_of_int \<lfloor>y\<rfloor> + 1"
    by linarith+
  then show ?thesis
    by (auto simp add: round_even_def Let_def abs_le_iff)
qed

lemma exponent_bracket:
  assumes "x \<noteq> 0"
  shows "pow2 \<lfloor>log 2 \<bar>x\<bar>\<rfloor> \<le> \<bar>x\<bar>" and "\<bar>x\<bar> < pow2 (\<lfloor>log 2 \<bar>x\<bar>\<rfloor> + 1)"
proof -
  from assms have "0 < \<bar>x\<bar>" by simp
  from floor_log_eq_powr_iff [OF this, of 2 "\<lfloor>log 2 \<bar>x\<bar>\<rfloor>"]
  show "pow2 \<lfloor>log 2 \<bar>x\<bar>\<rfloor> \<le> \<bar>x\<bar>" and "\<bar>x\<bar> < pow2 (\<lfloor>log 2 \<bar>x\<bar>\<rfloor> + 1)"
    by (simp_all add: pow2_powr)
qed

lemma exponent_unique:
  assumes "pow2 e \<le> \<bar>x\<bar>" "\<bar>x\<bar> < pow2 (e + 1)"
  shows "\<lfloor>log 2 \<bar>x\<bar>\<rfloor> = e"
proof -
  from assms(1) have "0 < \<bar>x\<bar>" using pow2_pos [of e] by linarith
  from floor_log_eq_powr_iff [OF this, of 2 e] assms show ?thesis
    by (simp add: pow2_powr)
qed

lemma fl_unfold:
  assumes "x \<noteq> 0" "e = \<lfloor>log 2 \<bar>x\<bar>\<rfloor>"
  shows "fl x = real_of_int (round_even (x / pow2 (e - 52))) * pow2 (e - 52)"
  using assms by (simp add: fl_def Let_def)

text \<open>The value of \<open>fl\<close> once the binade of the argument is known: this is how \<open>fl\<close> is
  computed on a given number.\<close>

lemma fl_at:
  assumes "pow2 e \<le> \<bar>x\<bar>" "\<bar>x\<bar> < pow2 (e + 1)"
  shows "fl x = real_of_int (round_even (x / pow2 (e - 52))) * pow2 (e - 52)"
proof -
  from assms(1) have "0 < \<bar>x\<bar>" using pow2_pos [of e] by linarith
  then have "x \<noteq> 0" by simp
  from fl_unfold [OF this exponent_unique [OF assms, symmetric]] show ?thesis .
qed

lemma fl_zero [simp]: "fl 0 = 0"
  by (simp add: fl_def)

text \<open>The relative error of a rounding is at most \<open>2\<^sup>-\<^sup>5\<^sup>3\<close>.\<close>

lemma fl_error: "\<bar>fl x - x\<bar> \<le> \<bar>x\<bar> / 2 ^ 53"
proof (cases "x = 0")
  case True
  then show ?thesis by simp
next
  case False
  define e where "e = \<lfloor>log 2 \<bar>x\<bar>\<rfloor>"
  define u where "u = pow2 (e - 52)"
  have u: "0 < u" by (simp add: u_def)
  have f: "fl x = real_of_int (round_even (x / u)) * u"
    unfolding u_def by (rule fl_unfold [OF False e_def])
  have "fl x - x = (real_of_int (round_even (x / u)) - x / u) * u"
    unfolding f using u by (simp add: algebra_simps)
  then have "\<bar>fl x - x\<bar> = \<bar>real_of_int (round_even (x / u)) - x / u\<bar> * u"
    using u by (simp add: abs_mult)
  also have "\<dots> \<le> 1 / 2 * u"
    using round_even_error [of "x / u"] u by (intro mult_right_mono) simp_all
  also have "1 / 2 * u = pow2 e / 2 ^ 53"
    unfolding u_def using pow2_split [of e 52] by (simp add: pow2_52)
  also have "\<dots> \<le> \<bar>x\<bar> / 2 ^ 53"
    using exponent_bracket(1) [OF False] unfolding e_def by (intro divide_right_mono) simp_all
  finally show ?thesis .
qed

lemma fl_bracket:
  assumes "0 < x"
  shows "pow2 \<lfloor>log 2 \<bar>x\<bar>\<rfloor> \<le> fl x" and "fl x \<le> pow2 (\<lfloor>log 2 \<bar>x\<bar>\<rfloor> + 1)"
proof -
  define e where "e = \<lfloor>log 2 \<bar>x\<bar>\<rfloor>"
  define u where "u = pow2 (e - 52)"
  have u: "0 < u" by (simp add: u_def)
  from assms have nz: "x \<noteq> 0" by simp
  have b1: "pow2 e \<le> x" and b2: "x < pow2 (e + 1)"
    using exponent_bracket [OF nz] assms unfolding e_def by linarith+
  have lo: "pow2 e = real_of_int (2 ^ 52) * u"
    unfolding u_def using pow2_split [of e 52] by (simp only: pow2_52)
  have "pow2 (e + 1) = pow2 53 * pow2 (e + 1 - 53)"
    by (rule pow2_split)
  moreover have "e + 1 - 53 = e - 52" by simp
  ultimately have hi: "pow2 (e + 1) = real_of_int (2 ^ 53) * u"
    unfolding u_def by (simp only: pow2_53)
  have "real_of_int (2 ^ 52) * u \<le> x"
    using b1 lo by simp
  then have "real_of_int (2 ^ 52) \<le> x / u"
    using u by (simp only: pos_le_divide_eq)
  from round_even_mono [OF this] have a: "2 ^ 52 \<le> round_even (x / u)"
    by (simp only: round_even_of_int)
  have "x \<le> real_of_int (2 ^ 53) * u"
    using b2 hi by simp
  then have "x / u \<le> real_of_int (2 ^ 53)"
    using u by (simp only: pos_divide_le_eq)
  from round_even_mono [OF this] have b: "round_even (x / u) \<le> 2 ^ 53"
    by (simp only: round_even_of_int)
  have f: "fl x = real_of_int (round_even (x / u)) * u"
    unfolding u_def by (rule fl_unfold [OF nz e_def])
  have "real_of_int (2 ^ 52) * u \<le> real_of_int (round_even (x / u)) * u"
    using a u by (intro mult_right_mono) simp_all
  then show "pow2 \<lfloor>log 2 \<bar>x\<bar>\<rfloor> \<le> fl x"
    unfolding f e_def [symmetric] lo .
  have "real_of_int (round_even (x / u)) * u \<le> real_of_int (2 ^ 53) * u"
    using b u by (intro mult_right_mono) simp_all
  then show "fl x \<le> pow2 (\<lfloor>log 2 \<bar>x\<bar>\<rfloor> + 1)"
    unfolding f e_def [symmetric] hi .
qed

lemma fl_pos: "0 < x \<Longrightarrow> 0 < fl x"
  using fl_bracket(1) [of x] pow2_pos [of "\<lfloor>log 2 \<bar>x\<bar>\<rfloor>"] by linarith

lemma fl_nonneg: "0 \<le> x \<Longrightarrow> 0 \<le> fl x"
  using fl_pos [of x] by (cases "x = 0") simp_all

lemma fl_neg: "x < 0 \<Longrightarrow> fl x < 0"
proof -
  assume x: "x < 0"
  then have "\<bar>x\<bar> / 2 ^ 53 < \<bar>x\<bar>" by simp
  with fl_error [of x] x show ?thesis by linarith
qed

text \<open>Rounding is monotone (on the numbers that are not negative, those of \<open>trim_audio\<close>).\<close>

lemma fl_mono:
  assumes "0 \<le> x" "x \<le> y"
  shows "fl x \<le> fl y"
proof (cases "x = 0")
  case True
  with assms fl_nonneg [of y] show ?thesis by simp
next
  case False
  with assms have x: "0 < x" and y: "0 < y" by simp_all
  define ex where "ex = \<lfloor>log 2 \<bar>x\<bar>\<rfloor>"
  define ey where "ey = \<lfloor>log 2 \<bar>y\<bar>\<rfloor>"
  have "log 2 \<bar>x\<bar> \<le> log 2 \<bar>y\<bar>"
    using x y assms(2) by simp
  then have le: "ex \<le> ey" unfolding ex_def ey_def by (rule floor_mono)
  show ?thesis
  proof (cases "ex = ey")
    case True
    define u where "u = pow2 (ey - 52)"
    have u: "0 < u" by (simp add: u_def)
    have fx: "fl x = real_of_int (round_even (x / u)) * u"
      unfolding u_def True [symmetric] using x by (intro fl_unfold [OF _ ex_def]) simp
    have fy: "fl y = real_of_int (round_even (y / u)) * u"
      unfolding u_def using y by (intro fl_unfold [OF _ ey_def]) simp
    have "x / u \<le> y / u"
      using assms(2) u by (intro divide_right_mono) simp_all
    from round_even_mono [OF this] show ?thesis
      unfolding fx fy using u by (intro mult_right_mono) simp_all
  next
    case False
    with le have "ex + 1 \<le> ey" by simp
    then have "pow2 (ex + 1) \<le> pow2 ey" by simp
    with fl_bracket(2) [OF x] fl_bracket(1) [OF y] show ?thesis
      unfolding ex_def ey_def by linarith
  qed
qed

text \<open>A number of at most 53 significant bits is a double: rounding leaves it as it is.\<close>

lemma fl_exact:
  assumes "0 \<le> m" "m < 2 ^ 53"
  shows "fl (real_of_int m * pow2 k) = real_of_int m * pow2 k"
proof (cases "m = 0")
  case True
  then show ?thesis by simp
next
  case False
  define x where "x = real_of_int m * pow2 k"
  define e where "e = \<lfloor>log 2 \<bar>x\<bar>\<rfloor>"
  from False assms(1) have m: "0 < real_of_int m" by simp
  have x: "0 < x" unfolding x_def using m by (intro mult_pos_pos) simp_all
  then have nz: "x \<noteq> 0" by simp
  have "pow2 e \<le> x"
    using exponent_bracket(1) [OF nz] x unfolding e_def by linarith
  also have "x < real_of_int (2 ^ 53) * pow2 k"
    unfolding x_def using assms(2) by (intro mult_strict_right_mono) simp_all
  also have "\<dots> = pow2 (53 + k)"
    using pow2_add [of 53 k] by (simp only: pow2_53)
  finally have "e < 53 + k" by simp
  then have j: "0 \<le> k - e + 52" by simp
  have "pow2 k = pow2 (k - e + 52) * pow2 (e - 52)"
    using pow2_add [of "k - e + 52" "e - 52"] by simp
  then have "x / pow2 (e - 52) = real_of_int m * pow2 (k - e + 52)"
    unfolding x_def by simp
  also have "\<dots> = real_of_int (m * 2 ^ nat (k - e + 52))"
    using pow2_nat [OF j] by simp
  finally have q: "x / pow2 (e - 52) = real_of_int (m * 2 ^ nat (k - e + 52))" .
  have "fl x = real_of_int (round_even (x / pow2 (e - 52))) * pow2 (e - 52)"
    by (rule fl_unfold [OF nz e_def])
  also have "\<dots> = x / pow2 (e - 52) * pow2 (e - 52)"
    unfolding q round_even_of_int ..
  also have "\<dots> = x" by simp
  finally show ?thesis unfolding x_def .
qed

lemma fl_of_int: "0 \<le> n \<Longrightarrow> n < 2 ^ 53 \<Longrightarrow> fl (real_of_int n) = real_of_int n"
  using fl_exact [of n 0] by (simp add: pow2_def)

lemma fl_half_int:
  assumes "0 \<le> n" "n < 2 ^ 52"
  shows "fl (real_of_int n + 1 / 2) = real_of_int n + 1 / 2"
proof -
  have "real_of_int (2 * n + 1) * pow2 (- 1) = real_of_int n + 1 / 2"
    by (simp add: pow2_def algebra_simps)
  with fl_exact [of "2 * n + 1" "- 1"] assms show ?thesis by simp
qed

text \<open>The truncation of a rounded number, against the rounding of the number to an
  integer: the same, or one below.\<close>

lemma floor_fl_near_round:
  assumes "0 \<le> x" "x < 2 ^ 52"
  shows "round x - 1 \<le> \<lfloor>fl x\<rfloor> \<and> \<lfloor>fl x\<rfloor> \<le> round x"
proof -
  define k where "k = \<lfloor>x\<rfloor>"
  have k0: "0 \<le> k" using assms(1) by (simp add: k_def)
  have "real_of_int k \<le> x" by (simp add: k_def)
  also note assms(2)
  finally have "real_of_int k < real_of_int (2 ^ 52)" by simp
  then have k52: "k < 2 ^ 52" by (simp only: of_int_less_iff)
  have kx: "real_of_int k \<le> x" and xk: "x < real_of_int k + 1"
    unfolding k_def by linarith+
  have "fl (real_of_int k) \<le> fl x"
    using k0 kx by (intro fl_mono) simp_all
  then have "real_of_int k \<le> fl x"
    using fl_of_int [of k] k0 k52 by simp
  then have lo: "k \<le> \<lfloor>fl x\<rfloor>" by (simp add: le_floor_iff)
  have r: "round x = \<lfloor>x + 1 / 2\<rfloor>" by (simp add: round_def)
  show ?thesis
  proof (cases "x < real_of_int k + 1 / 2")
    case True
    then have "fl x \<le> fl (real_of_int k + 1 / 2)"
      using assms(1) by (intro fl_mono) simp_all
    then have "fl x < real_of_int (k + 1)"
      using fl_half_int [OF k0 k52] by simp
    then have "\<lfloor>fl x\<rfloor> < k + 1" by (simp only: floor_less_iff)
    moreover have "round x = k"
      unfolding r using True kx by (intro floor_unique) simp_all
    ultimately show ?thesis using lo by simp
  next
    case False
    have "fl x \<le> fl (real_of_int (k + 1))"
      using assms(1) xk by (intro fl_mono) simp_all
    then have "fl x \<le> real_of_int (k + 1)"
      using fl_of_int [of "k + 1"] k0 k52 by simp
    then have "\<lfloor>fl x\<rfloor> \<le> k + 1" by (simp add: floor_le_iff)
    moreover have "round x = k + 1"
      unfolding r using False xk by (intro floor_unique) simp_all
    ultimately show ?thesis using lo by simp
  qed
qed

subsection \<open>Trim\<close>

text \<open>
  C2, as the specification states it, fails: trimming an empty buffer with the default
  arguments stops at the third range check, and the failure is one the specification
  calls \<open>InvalidRange\<close>. The code has no check of its own for an empty input.
\<close>

theorem trim_audio_empty_counterexample:
  "trim_audio (Mono []) 44100 0 None = Inl StartNotBeforeEnd \<and>
   spec_error_of StartNotBeforeEnd \<noteq> Some EmptySignal"
  by (simp add: trim_audio_def)

text \<open>
  C2, amended. On a buffer without samples \<open>trim_audio\<close> always fails, and it fails in the
  range checks themselves, in their order, the duration being zero: a negative start, then
  an end beyond the duration, then a start that is not before the end (a sample rate of
  zero fails before them, in the division).
\<close>

theorem trim_audio_empty_fails_in_range_checks:
  "total_samples signal = 0 \<Longrightarrow>
     trim_audio signal sr start_time end_time =
       (if sr = 0 then Inl ZeroDivisionError
        else if start_time < 0 then Inl StartNegative
        else case end_time of
               None \<Rightarrow> Inl StartNotBeforeEnd
             | Some e \<Rightarrow>
                 if e > 0 then Inl (EndExceedsDuration (fl e) 0) else Inl StartNotBeforeEnd)"
proof -
  assume n: "total_samples signal = 0"
  consider (zero) "sr = 0" | (negative) "sr \<noteq> 0" "start_time < 0"
    | (start) "sr \<noteq> 0" "0 \<le> start_time"
    by linarith
  then show ?thesis
  proof cases
    case zero
    then show ?thesis by (simp add: trim_audio_def)
  next
    case negative
    from negative(2) have "fl start_time < 0" by (rule fl_neg)
    with negative show ?thesis by (simp add: trim_audio_def Let_def)
  next
    case start
    from start(2) have s: "0 \<le> fl start_time" by (rule fl_nonneg)
    then have ns: "\<not> fl start_time < 0" by simp
    from start(2) have nn: "\<not> start_time < 0" by simp
    show ?thesis
    proof (cases end_time)
      case None
      with start(1) nn ns s show ?thesis
        by (simp add: trim_audio_def Let_def n)
    next
      case (Some e)
      show ?thesis
      proof (cases "0 < e")
        case True
        then have "0 < fl e" by (rule fl_pos)
        with True Some start(1) nn ns show ?thesis
          by (simp add: trim_audio_def Let_def n)
      next
        case False
        then have "fl e \<le> 0"
          using fl_neg [of e] by (cases "e = 0") auto
        then have "\<not> 0 < fl e" "fl e \<le> fl start_time"
          using s by simp_all
        with False Some start(1) nn ns show ?thesis
          by (simp add: trim_audio_def Let_def n)
      qed
    qed
  qed
qed

theorem trim_audio_empty_fails_in_range_checks_witness:
  "total_samples (Multi [[], []]) = 0 \<and>
   trim_audio (Multi [[], []]) 44100 0 (Some 1) = Inl (EndExceedsDuration 1 0) \<and>
   spec_error_of (EndExceedsDuration 1 0) = Some InvalidRange"
  using trim_audio_empty_fails_in_range_checks [of "Multi [[], []]" 44100 0 "Some 1"]
    fl_of_int [of 1]
  by simp

text \<open>
  C3, as the specification states it, fails: the bounds of the slice are truncated
  (\<open>int(...)\<close>), not rounded. The times \<open>2\<^sup>-\<^sup>1\<^sup>5\<close> s and \<open>2\<^sup>-\<^sup>1\<^sup>3\<close> s (about 0.03 ms and 0.12 ms)
  are doubles, and so are their products with 22050 Hz, 0.6729... and 2.6916...: of three
  samples the code keeps the first two, where the slice from \<open>round(0.6729) = 1\<close> to
  \<open>round(2.6916) = 3\<close> is the last two.
\<close>

theorem trim_audio_round_counterexample:
  "trim_audio (Mono [1, 2, 3]) 22050 (1 / 32768) (Some (1 / 8192)) = Inr (Mono [1, 2]) \<and>
   py_slice [1, 2, 3 :: real] (round (1 / 32768 * 22050 :: real))
     (round (1 / 8192 * 22050 :: real)) = [2, 3]"
proof -
  have s: "fl (1 / 32768) = 1 / 32768"
    using fl_exact [of 1 "- 15"] by (simp add: pow2_def)
  have e: "fl (1 / 8192) = 1 / 8192"
    using fl_exact [of 1 "- 13"] by (simp add: pow2_def)
  have sr: "fl 22050 = 22050"
    using fl_of_int [of 22050] by simp
  have ps: "fl (11025 / 16384) = 11025 / 16384"
    using fl_exact [of 11025 "- 14"] by (simp add: pow2_def)
  have pe: "fl (11025 / 4096) = 11025 / 4096"
    using fl_exact [of 11025 "- 12"] by (simp add: pow2_def)
  have "fl (1 / 8192) \<le> fl (1 / 7350)"
    by (intro fl_mono) simp_all
  then have "1 / 8192 \<le> fl (1 / 7350)"
    by (simp only: e)
  then have d: "\<not> fl (1 / 7350) * 8192 < 1"
    by linarith
  show ?thesis
    by (simp add: trim_audio_def s e sr ps pe d py_int_def py_slice_def slice_index_def round_def)
qed

lemma round_near_floor: "\<lfloor>x\<rfloor> \<le> round x \<and> round x \<le> \<lfloor>x\<rfloor> + 1" for x :: real
proof -
  have "\<lfloor>x\<rfloor> \<le> \<lfloor>x + 1 / 2\<rfloor>" by (intro floor_mono) simp
  moreover have "\<lfloor>x + 1 / 2\<rfloor> \<le> \<lfloor>x + 1\<rfloor>" by (intro floor_mono) simp
  ultimately show ?thesis by (simp add: round_def)
qed

lemma py_slice_in_range:
  "0 \<le> a \<Longrightarrow> a \<le> b \<Longrightarrow> b \<le> int (length xs) \<Longrightarrow>
     py_slice xs a b = take (nat b - nat a) (drop (nat a) xs) \<and>
     length (py_slice xs a b) = nat b - nat a"
  by (auto simp add: py_slice_def slice_index_def Let_def min_def)

lemma length_take_drop:
  "b \<le> length xs \<Longrightarrow> length (take (b - a) (drop a xs)) = b - a"
  by (simp add: min_def) arith

text \<open>The duration, a rounded quotient, times the sample rate is at most half a sample
  beyond the number of samples.\<close>

lemma duration_times_rate:
  assumes "0 < sr" "N \<le> 2 ^ 51"
  shows "fl (real N / real_of_int sr) * real_of_int sr \<le> real N + 1 / 2"
proof -
  define q where "q = real N / real_of_int sr"
  define c where "c = (2::real) ^ 53"
  have sr: "0 < real_of_int sr" using assms(1) by simp
  have q0: "0 \<le> q" using sr by (simp add: q_def)
  then have aq: "\<bar>q\<bar> = q" by simp
  have qs: "q * real_of_int sr = real N" using sr by (simp add: q_def)
  have "\<bar>fl q - q\<bar> \<le> q / c"
    using fl_error [of q] unfolding aq c_def .
  then have "fl q \<le> q + q / c"
    by linarith
  then have "fl q * real_of_int sr \<le> (q + q / c) * real_of_int sr"
    using sr by (intro mult_right_mono) simp_all
  also have "\<dots> = q * real_of_int sr + q * real_of_int sr / c"
    by (simp add: algebra_simps)
  also have "\<dots> = real N + real N / c"
    unfolding qs ..
  also have "\<dots> \<le> real N + 1 / 2"
  proof -
    have "real N \<le> 2 ^ 51" using assms(2) by (metis of_nat_le_iff of_nat_numeral of_nat_power)
    then show ?thesis unfolding c_def by simp
  qed
  finally show ?thesis unfolding q_def .
qed

text \<open>
  C3, amended. For a buffer of at most \<open>2\<^sup>5\<^sup>1\<close> samples per channel, a positive sample rate
  and a valid pair of times (\<open>0 \<le> s < e \<le> duration\<close>, as the doubles that the code
  compares), \<open>trim_audio\<close> returns, for every channel alike, the samples from
  \<open>\<lfloor>fl (s * sr)\<rfloor>\<close> up to \<open>\<lfloor>fl (e * sr)\<rfloor>\<close>: the product of a time and the rate is rounded to a
  double, which is then truncated, not rounded to the nearest integer. The number of
  samples of each channel of the output is the difference of these two bounds, and it is
  within one sample of \<open>round (e * sr) - round (s * sr)\<close>. Without an end time the end is
  the duration, itself the rounded quotient of the number of samples and the rate.
\<close>

theorem trim_audio_slices_truncated:
  assumes "rectangular signal" and "0 < sr" and "sr < 2 ^ 53"
    and "total_samples signal \<le> 2 ^ 51"
    and "0 \<le> s" and "fl s < fl e"
    and "fl e \<le> fl (real (total_samples signal) / real_of_int sr)"
  shows "trim_audio signal sr s (Some e) =
           Inr (case signal of
                  Mono xs \<Rightarrow>
                    Mono (take (nat \<lfloor>fl (fl e * real_of_int sr)\<rfloor> - nat \<lfloor>fl (fl s * real_of_int sr)\<rfloor>)
                            (drop (nat \<lfloor>fl (fl s * real_of_int sr)\<rfloor>) xs))
                | Multi rows \<Rightarrow>
                    Multi (map (\<lambda>row.
                      take (nat \<lfloor>fl (fl e * real_of_int sr)\<rfloor> - nat \<lfloor>fl (fl s * real_of_int sr)\<rfloor>)
                        (drop (nat \<lfloor>fl (fl s * real_of_int sr)\<rfloor>) row)) rows)) \<and>
         (\<forall>out. trim_audio signal sr s (Some e) = Inr out \<longrightarrow>
            ndim out = ndim signal \<and> length (channels out) = length (channels signal) \<and>
            (\<forall>row \<in> set (channels out).
               int (length row) = \<lfloor>fl (fl e * real_of_int sr)\<rfloor> - \<lfloor>fl (fl s * real_of_int sr)\<rfloor> \<and>
               \<bar>int (length row)
                  - (round (fl e * real_of_int sr) - round (fl s * real_of_int sr))\<bar> \<le> 1)) \<and>
         trim_audio signal sr s None
           = trim_audio signal sr s (Some (real (total_samples signal) / real_of_int sr))"
proof -
  let ?N = "total_samples signal"
  define x where "x = fl s * real_of_int sr"
  define y where "y = fl e * real_of_int sr"
  define a where "a = \<lfloor>fl x\<rfloor>"
  define b where "b = \<lfloor>fl y\<rfloor>"
  have sr: "0 < real_of_int sr" using assms(2) by simp
  have fsr: "fl (real_of_int sr) = real_of_int sr"
    using assms(2,3) by (intro fl_of_int) simp_all
  have s0: "0 \<le> fl s" using assms(5) by (rule fl_nonneg)
  have x0: "0 \<le> x" unfolding x_def using s0 sr by simp
  have xy: "x \<le> y" unfolding x_def y_def using assms(6) sr by simp
  have "y \<le> fl (real ?N / real_of_int sr) * real_of_int sr"
    unfolding y_def using assms(7) sr by (intro mult_right_mono) simp_all
  also have "\<dots> \<le> real ?N + 1 / 2"
    by (rule duration_times_rate [OF assms(2,4)])
  finally have yN: "y \<le> real ?N + 1 / 2" .
  have N52: "int ?N < 2 ^ 52"
  proof -
    have "int ?N \<le> int (2 ^ 51)" using assms(4) by (simp only: of_nat_le_iff)
    then show ?thesis by simp
  qed
  have "real ?N + 1 / 2 < 2 ^ 52"
  proof -
    have "real ?N \<le> 2 ^ 51" using assms(4) by (metis of_nat_le_iff of_nat_numeral of_nat_power)
    then show ?thesis by simp
  qed
  with yN have y52: "y < 2 ^ 52" by simp
  with xy have x52: "x < 2 ^ 52" by simp
  have y0: "0 \<le> y" using x0 xy by simp
  have a0: "0 \<le> a"
    unfolding a_def using fl_nonneg [OF x0] by simp
  have ab: "a \<le> b"
    unfolding a_def b_def using fl_mono [OF x0 xy] by (rule floor_mono)
  have "fl y \<le> fl (real_of_int (int ?N) + 1 / 2)"
    using y0 yN by (intro fl_mono) simp_all
  then have "fl y < real_of_int (int ?N + 1)"
    using fl_half_int [of "int ?N"] N52 by simp
  then have "b < int ?N + 1"
    unfolding b_def by (simp only: floor_less_iff)
  then have bN: "b \<le> int ?N" by simp
  have tol: "\<bar>(b - a) - (round y - round x)\<bar> \<le> 1"
    using floor_fl_near_round [OF x0 x52] floor_fl_near_round [OF y0 y52]
    unfolding a_def b_def by linarith
  have ints: "py_int (fl x) = a" "py_int (fl y) = b"
    unfolding a_def b_def using fl_nonneg [OF x0] fl_nonneg [OF y0] by (simp_all add: py_int_def)
  have ok: "\<not> fl s < 0" "\<not> fl e > fl (real ?N / real_of_int sr)" "\<not> fl s \<ge> fl e" "sr \<noteq> 0"
    using assms s0 by simp_all
  have rows: "\<forall>row \<in> set (channels signal). length row = ?N"
    using assms(1) by (simp add: rectangular_def list_all_iff)
  have len: "int (nat b - nat a) = b - a"
    using a0 ab by linarith
  have res: "trim_audio signal sr s (Some e) =
           Inr (case signal of
                  Mono xs \<Rightarrow> Mono (take (nat b - nat a) (drop (nat a) xs))
                | Multi rows \<Rightarrow> Multi (map (\<lambda>row. take (nat b - nat a) (drop (nat a) row)) rows))"
  proof (cases signal)
    case (Mono xs)
    with bN have "b \<le> int (length xs)" by simp
    from py_slice_in_range [OF a0 ab this] show ?thesis
      using ok Mono by (simp add: trim_audio_def fsr ints x_def [symmetric] y_def [symmetric])
  next
    case (Multi rs)
    have "py_slice row a b = take (nat b - nat a) (drop (nat a) row)" if "row \<in> set rs" for row
    proof -
      from that rows Multi have "length row = ?N" by simp
      with bN have "b \<le> int (length row)" by simp
      from py_slice_in_range [OF a0 ab this] show ?thesis by simp
    qed
    then show ?thesis
      using ok Multi by (simp add: trim_audio_def fsr ints x_def [symmetric] y_def [symmetric])
  qed
  have shape: "ndim out = ndim signal \<and> length (channels out) = length (channels signal) \<and>
            (\<forall>row \<in> set (channels out).
               int (length row) = b - a \<and> \<bar>int (length row) - (round y - round x)\<bar> \<le> 1)"
    if "trim_audio signal sr s (Some e) = Inr out" for out
  proof (cases signal)
    case (Mono xs)
    with bN have "nat b \<le> length xs" by simp
    then have "length (take (nat b - nat a) (drop (nat a) xs)) = nat b - nat a"
      by (rule length_take_drop)
    with len have "int (length (take (nat b - nat a) (drop (nat a) xs))) = b - a"
      by simp
    with that res Mono tol show ?thesis by auto
  next
    case (Multi rs)
    have "int (length (take (nat b - nat a) (drop (nat a) row))) = b - a" if "row \<in> set rs" for row
    proof -
      from that rows Multi have "length row = ?N" by simp
      with bN have "nat b \<le> length row" by simp
      then have "length (take (nat b - nat a) (drop (nat a) row)) = nat b - nat a"
        by (rule length_take_drop)
      with len show ?thesis by simp
    qed
    with that res Multi tol show ?thesis by auto
  qed
  have dflt: "trim_audio signal sr s None
           = trim_audio signal sr s (Some (real ?N / real_of_int sr))"
    by (simp add: trim_audio_def)
  from res shape dflt show ?thesis
    unfolding a_def b_def x_def y_def by blast
qed

text \<open>
  Fifteen samples at 22050 Hz, trimmed from 0 s without an end time: the duration is the
  double nearest to \<open>15 / 22050 = 1 / 1470\<close>, its product with the rate is
  \<open>69175290276410813775 / 2\<^sup>6\<^sup>2\<close>, which rounds to \<open>14.999999999999998\<close>, and fourteen
  samples are returned.
\<close>

lemma fl_duration_example: "fl (1 / 1470) = 6274402746159711 / 9223372036854775808"
  using fl_at [of "- 11" "1 / 1470"]
  by (simp add: pow2_def round_even_def Let_def)

lemma fl_product_example:
  "fl (69175290276410813775 / 4611686018427387904) = 8444249301319679 / 562949953421312"
  using fl_at [of 3 "69175290276410813775 / 4611686018427387904"]
  by (simp add: pow2_def round_even_def Let_def)

theorem trim_audio_slices_truncated_witness:
  "rectangular (Mono [1, 2, 3, 4, 5, 6, 7, 8, 9, 10, 11, 12, 13, 14, 15]) \<and>
   (0::int) < 22050 \<and> (22050::int) < 2 ^ 53 \<and>
   total_samples (Mono [1, 2, 3, 4, 5, 6, 7, 8, 9, 10, 11, 12, 13, 14, 15]) \<le> 2 ^ 51 \<and>
   (0::real) \<le> 0 \<and> fl 0 < fl (15 / 22050) \<and>
   trim_audio (Mono [1, 2, 3, 4, 5, 6, 7, 8, 9, 10, 11, 12, 13, 14, 15]) 22050 0 None
     = Inr (Mono [1, 2, 3, 4, 5, 6, 7, 8, 9, 10, 11, 12, 13, 14])"
proof -
  let ?sig = "Mono [1, 2, 3, 4, 5, 6, 7, 8, 9, 10, 11, 12, 13, 14, 15]"
  have n: "real (total_samples ?sig) / real_of_int 22050 = 15 / 22050"
    by simp
  have h: "rectangular ?sig" "(0::int) < 22050" "(22050::int) < 2 ^ 53"
    "total_samples ?sig \<le> 2 ^ 51" "(0::real) \<le> 0"
    by (simp_all add: rectangular_def)
  have lt: "fl 0 < fl (15 / 22050)"
    using fl_pos [of "15 / 22050"] by simp
  have le: "fl (15 / 22050) \<le> fl (real (total_samples ?sig) / real_of_int 22050)"
    unfolding n by simp
  note t = trim_audio_slices_truncated [OF h lt le]
  have b: "\<lfloor>fl (fl (15 / 22050) * real_of_int 22050)\<rfloor> = 14"
    by (simp add: fl_duration_example fl_product_example)
  have a: "\<lfloor>fl (fl 0 * real_of_int 22050)\<rfloor> = 0"
    by simp
  from t have "trim_audio ?sig 22050 0 None = trim_audio ?sig 22050 0 (Some (15 / 22050))"
    unfolding n by blast
  moreover from t have "trim_audio ?sig 22050 0 (Some (15 / 22050))
      = Inr (Mono (take (nat 14 - nat 0) (drop (nat 0) [1, 2, 3, 4, 5, 6, 7, 8, 9, 10, 11, 12, 13, 14, 15])))"
    unfolding a b by simp
  ultimately have "trim_audio ?sig 22050 0 None
     = Inr (Mono [1, 2, 3, 4, 5, 6, 7, 8, 9, 10, 11, 12, 13, 14])"
    by simp
  with h lt show ?thesis by (intro conjI)
qed

text \<open>
  Two more bounds, as the code computes them: \<open>int(0.7 * 44100)\<close> is 30869, the double
  nearest to 0.7 being below it, and \<open>int(0.03 * 44100)\<close> is 1323, the product of the
  double nearest to 0.03 (which is below it) and the rate rounding up to 1323.
\<close>

lemma fl_seven_tenths: "fl (7 / 10) = 3152519739159347 / 4503599627370496"
  using fl_at [of "- 1" "7 / 10"]
  by (simp add: pow2_def round_even_def Let_def)

lemma fl_seven_tenths_product:
  "fl (34756530124231800675 / 1125899906842624) = 8485480987361279 / 274877906944"
  using fl_at [of 14 "34756530124231800675 / 1125899906842624"]
  by (simp add: pow2_def round_even_def Let_def)

lemma fl_three_hundredths: "fl (3 / 100) = 1080863910568919 / 36028797018963968"
  using fl_at [of "- 6" "3 / 100"]
  by (simp add: pow2_def round_even_def Let_def)

lemma fl_three_hundredths_product:
  "fl (11916524614022331975 / 9007199254740992) = 1323"
  using fl_at [of 10 "11916524614022331975 / 9007199254740992"]
  by (simp add: pow2_def round_even_def Let_def)

lemma slice_bound_examples:
  "py_int (fl (fl (7 / 10) * fl (real_of_int 44100))) = 30869"
  "py_int (fl (fl (3 / 100) * fl (real_of_int 44100))) = 1323"
  using fl_of_int [of 44100]
  by (simp_all add: py_int_def fl_seven_tenths fl_seven_tenths_product
      fl_three_hundredths fl_three_hundredths_product)

subsection \<open>Reverb\<close>

lemma add_into_parts:
  assumes "offset \<le> end" "end \<le> length output" "length values = end - offset"
  shows "length (take offset output) = offset"
    and "length (map2 (+) (take (end - offset) (drop offset output)) values) = end - offset"
    and "length (drop end output) = length output - end"
  using assms by simp_all

lemma add_into_length:
  assumes "offset \<le> end" "end \<le> length output" "length values = end - offset"
  shows "length (add_into output offset end values) = length output"
proof -
  have "length (add_into output offset end values)
          = offset + ((end - offset) + (length output - end))"
    unfolding add_into_def length_append add_into_parts [OF assms] ..
  then show ?thesis using assms(1,2) by simp
qed

lemma add_into_nth:
  assumes "offset \<le> end" "end \<le> length output" "length values = end - offset"
    and "j < length output"
  shows "add_into output offset end values ! j
           = output ! j + (if offset \<le> j \<and> j < end then values ! (j - offset) else 0)"
proof -
  let ?a = "take offset output"
  let ?b = "map2 (+) (take (end - offset) (drop offset output)) values"
  let ?c = "drop end output"
  note parts = add_into_parts [OF assms(1-3)]
  consider "j < offset" | "offset \<le> j" "j < end" | "end \<le> j" by linarith
  then show ?thesis
  proof cases
    case 1
    then have "(?a @ ?b @ ?c) ! j = ?a ! j"
      using parts(1) by (simp add: nth_append)
    with 1 show ?thesis by (simp add: add_into_def)
  next
    case 2
    then have k: "j - offset < end - offset" by simp
    have "(?a @ ?b @ ?c) ! j = (?b @ ?c) ! (j - offset)"
      using 2 parts(1) by (simp add: nth_append)
    also have "\<dots> = ?b ! (j - offset)"
      using k parts(2) by (simp add: nth_append)
    also have "\<dots> = take (end - offset) (drop offset output) ! (j - offset) + values ! (j - offset)"
      using k assms(2,3) by simp
    also have "take (end - offset) (drop offset output) ! (j - offset) = output ! j"
      using k 2 assms(2) by simp
    finally show ?thesis using 2 by (simp add: add_into_def)
  next
    case 3
    then have o: "offset \<le> j" using assms(1) by simp
    have "(?a @ ?b @ ?c) ! j = (?b @ ?c) ! (j - offset)"
      using o parts(1) by (simp add: nth_append)
    also have "\<dots> = ?c ! (j - offset - (end - offset))"
      using 3 o parts(2) by (simp add: nth_append)
    also have "j - offset - (end - offset) = j - end"
      using 3 assms(1) by simp
    also have "?c ! (j - end) = output ! j"
      using 3 assms(2,4) by simp
    finally show ?thesis using 3 by (simp add: add_into_def)
  qed
qed

lemma reflection_props:
  assumes "length output = length row + d * num_reflections" "i \<le> num_reflections"
  shows "length (reflection row (length row) d decay i output) = length output"
    and "j < length output \<Longrightarrow>
           reflection row (length row) d decay i output ! j = output ! j + echo row d decay i j"
proof -
  have le: "d * i + length row \<le> length output"
    using assms by simp
  let ?v = "map (\<lambda>x. x * decay ^ i) row"
  have r: "reflection row (length row) d decay i output
             = add_into output (d * i) (d * i + length row) ?v"
    using le by (simp add: reflection_def Let_def)
  show "length (reflection row (length row) d decay i output) = length output"
    unfolding r using le by (intro add_into_length) simp_all
  show "reflection row (length row) d decay i output ! j = output ! j + echo row d decay i j"
    if "j < length output"
  proof -
    have "add_into output (d * i) (d * i + length row) ?v ! j
            = output ! j + (if d * i \<le> j \<and> j < d * i + length row then ?v ! (j - d * i) else 0)"
      using le that by (intro add_into_nth) simp_all
    then show ?thesis
      unfolding r by (auto simp add: echo_def)
  qed
qed

lemma fold_reflection:
  assumes "length acc = length row + d * num_reflections" "\<forall>i \<in> set is. i \<le> num_reflections"
  shows "length (fold (reflection row (length row) d decay) is acc) = length acc \<and>
         (\<forall>j < length acc.
            fold (reflection row (length row) d decay) is acc ! j
              = acc ! j + sum_list (map (\<lambda>i. echo row d decay i j) is))"
  using assms
proof (induction "is" arbitrary: acc)
  case Nil
  then show ?case by simp
next
  case (Cons i "is")
  let ?o = "reflection row (length row) d decay i acc"
  have i: "i \<le> num_reflections" using Cons.prems(2) by simp
  note rp = reflection_props [OF Cons.prems(1) i, where decay = decay]
  have "length ?o = length row + d * num_reflections"
    using rp(1) Cons.prems(1) by simp
  from Cons.IH [OF this] Cons.prems(2) rp show ?case
    by (simp add: add.assoc)
qed

lemma collect_map_Inr:
  "\<forall>x \<in> set xs. f x = Inr (g x) \<Longrightarrow> collect (map f xs) = Inr (map g xs)"
  by (induction xs) simp_all

lemma delay_in_samples_div:
  assumes "0 \<le> sr" "0 \<le> delay_ms"
  shows "delay_in_samples sr delay_ms = sr * delay_ms div 1000"
    and "0 \<le> delay_in_samples sr delay_ms"
proof -
  have "0 \<le> real_of_int (sr * delay_ms) / 1000"
    using assms by simp
  then have "delay_in_samples sr delay_ms = \<lfloor>real_of_int (sr * delay_ms) / real_of_int 1000\<rfloor>"
    by (simp add: delay_in_samples_def py_int_def)
  also have "\<dots> = sr * delay_ms div 1000"
    by (rule floor_divide_of_int_eq)
  finally show "delay_in_samples sr delay_ms = sr * delay_ms div 1000" .
  then show "0 \<le> delay_in_samples sr delay_ms"
    using assms by (simp add: pos_imp_zdiv_nonneg_iff)
qed

lemma reverb_row_spec:
  assumes "0 \<le> ds"
  shows "reverb_row (replicate (length row + nat ds * num_reflections) 0) (length row) ds decay row
           = Inr (spec_reverb_row (nat ds) decay row)"
proof -
  let ?d = "nat ds"
  let ?n = "length row + ?d * num_reflections"
  let ?o = "row @ replicate (?d * num_reflections) 0"
  have a: "assign_prefix (replicate ?n 0) (length row) row = Inr ?o"
    by (simp add: assign_prefix_def min_def)
  have len: "length ?o = length row + ?d * num_reflections" by simp
  have all: "\<forall>i \<in> set [1..<num_reflections + 1]. i \<le> num_reflections" by auto
  note f = fold_reflection [OF len all, where decay = decay]
  have "fold (reflection row (length row) ?d decay) [1..<num_reflections + 1] ?o
          = spec_reverb_row ?d decay row"
  proof (rule nth_equalityI)
    show "length (fold (reflection row (length row) ?d decay) [1..<num_reflections + 1] ?o)
            = length (spec_reverb_row ?d decay row)"
      using f by (simp add: spec_reverb_row_def)
  next
    fix j assume "j < length (fold (reflection row (length row) ?d decay) [1..<num_reflections + 1] ?o)"
    then have j: "j < length row + ?d * num_reflections" using f by simp
    then have "fold (reflection row (length row) ?d decay) [1..<num_reflections + 1] ?o ! j
                 = ?o ! j + sum_list (map (\<lambda>i. echo row ?d decay i j) [1..<num_reflections + 1])"
      using f by simp
    moreover have "?o ! j = (if j < length row then row ! j else 0)"
      using j by (simp add: nth_append)
    ultimately show "fold (reflection row (length row) ?d decay) [1..<num_reflections + 1] ?o ! j
                       = spec_reverb_row ?d decay row ! j"
      using j by (simp add: spec_reverb_row_def del: upt_Suc)
  qed
  with a show ?thesis
    by (simp add: reverb_row_def)
qed

lemma reverb_mix_spec:
  assumes "rectangular signal" "0 \<le> sr" "0 \<le> delay_ms"
  shows "reverb_mix signal sr decay delay_ms
           = Inr (map_channels (spec_reverb_row (nat (delay_in_samples sr delay_ms)) decay) signal)"
proof -
  let ?ds = "delay_in_samples sr delay_ms"
  let ?N = "total_samples signal"
  have ds: "0 \<le> ?ds" using assms(2,3) by (rule delay_in_samples_div)
  then have "0 \<le> ?ds * int num_reflections"
    by (intro mult_nonneg_nonneg) simp_all
  then have nn: "\<not> int ?N + ?ds * int num_reflections < 0"
    by linarith
  have "nat (int ?N + ?ds * int num_reflections) = ?N + nat ?ds * num_reflections"
    using ds by (simp add: nat_add_distrib nat_mult_distrib)
  with nn have z: "np_zeros (int ?N + ?ds * int num_reflections)
             = Inr (replicate (?N + nat ?ds * num_reflections) 0)"
    unfolding np_zeros_def by (simp only: if_False)
  show ?thesis
  proof (cases signal)
    case (Mono xs)
    with z reverb_row_spec [OF ds, where row = xs and decay = decay] show ?thesis
      by (simp add: reverb_mix_def Let_def)
  next
    case (Multi rows)
    have "\<forall>row \<in> set rows.
            reverb_row (replicate (?N + nat ?ds * num_reflections) 0) ?N ?ds decay row
              = Inr (spec_reverb_row (nat ?ds) decay row)"
    proof
      fix row assume "row \<in> set rows"
      with assms(1) Multi have "length row = ?N"
        by (simp add: rectangular_def list_all_iff)
      with reverb_row_spec [OF ds, where row = row and decay = decay] show
        "reverb_row (replicate (?N + nat ?ds * num_reflections) 0) ?N ?ds decay row
              = Inr (spec_reverb_row (nat ?ds) decay row)"
        by simp
    qed
    from collect_map_Inr [OF this] z Multi show ?thesis
      by (simp add: reverb_mix_def Let_def)
  qed
qed


lemma channels_map_channels: "channels (map_channels f s) = map f (channels s)"
  by (cases s) simp_all

lemma ndim_map_channels: "ndim (map_channels f s) = ndim s"
  by (cases s) simp_all

lemma length_spec_reverb_row:
  "length (spec_reverb_row d decay row) = length row + d * num_reflections"
  by (simp add: spec_reverb_row_def)

lemma shape_smap: "ndim (smap f s) = ndim s \<and> map length (channels (smap f s)) = map length (channels s)"
  by (cases s) (simp_all add: comp_def)

lemma peak_normalize_shape:
  assumes "peak_normalize s t = Inr out"
  shows "ndim out = ndim s \<and> map length (channels out) = map length (channels s)"
proof -
  from assms obtain p where "peak s = Inr p"
    by (cases "peak s") (simp_all add: peak_normalize_def)
  with assms have "out = s \<or> out = smap (\<lambda>x. x * (t / p)) s"
    by (auto simp add: peak_normalize_def split: if_splits)
  then show ?thesis
    using shape_smap by auto
qed

lemma peak_normalize_returns_iff:
  "(\<exists>out. peak_normalize s t = Inr out) \<longleftrightarrow> flatten s \<noteq> []"
proof (cases "flatten s")
  case Nil
  then show ?thesis by (simp add: peak_normalize_def peak_def)
next
  case (Cons x xs)
  then show ?thesis by (simp add: peak_normalize_def peak_def)
qed

lemma reverb_normalizes_spec:
  assumes "rectangular signal" "0 \<le> sr" "0 \<le> delay_ms"
  shows "reverb signal sr decay delay_ms
           = peak_normalize
               (map_channels (spec_reverb_row (nat (delay_in_samples sr delay_ms)) decay) signal)
               default_target_peak"
  by (simp add: reverb_def reverb_mix_spec [OF assms])

lemma reverb_shape:
  assumes "rectangular signal" "0 \<le> sr" "0 \<le> delay_ms"
    and "reverb signal sr decay delay_ms = Inr out"
  shows "ndim out = ndim signal \<and> length (channels out) = length (channels signal) \<and>
         (\<forall>row \<in> set (channels out).
            length row = total_samples signal + 5 * nat (delay_in_samples sr delay_ms))"
proof -
  let ?d = "nat (delay_in_samples sr delay_ms)"
  let ?mix = "map_channels (spec_reverb_row ?d decay) signal"
  from assms(4) have "peak_normalize ?mix default_target_peak = Inr out"
    by (simp add: reverb_normalizes_spec [OF assms(1-3)])
  from peak_normalize_shape [OF this]
  have nd: "ndim out = ndim signal"
    and ls: "map length (channels out) = map (\<lambda>row. length row + ?d * num_reflections) (channels signal)"
    by (simp_all add: ndim_map_channels channels_map_channels comp_def length_spec_reverb_row)
  have rows: "\<forall>row \<in> set (channels signal). length row = total_samples signal"
    using assms(1) by (simp add: rectangular_def list_all_iff)
  from ls have "length (channels out) = length (channels signal)"
    by (metis length_map)
  moreover have "length row = total_samples signal + 5 * ?d" if "row \<in> set (channels out)" for row
  proof -
    from that have "length row \<in> set (map length (channels out))" by simp
    then obtain r where "r \<in> set (channels signal)" "length row = length r + ?d * num_reflections"
      unfolding ls by auto
    with rows show ?thesis by (simp add: num_reflections_def)
  qed
  ultimately show ?thesis using nd by blast
qed

lemma flatten_empty_iff: "flatten s = [] \<longleftrightarrow> (\<forall>row \<in> set (channels s). row = [])"
  by (cases s) simp_all

lemma reverb_returns:
  assumes "rectangular signal" "0 \<le> sr" "0 \<le> delay_ms"
    and "channels signal \<noteq> []" "0 < total_samples signal + 5 * nat (delay_in_samples sr delay_ms)"
  shows "\<exists>out. reverb signal sr decay delay_ms = Inr out"
proof -
  let ?d = "nat (delay_in_samples sr delay_ms)"
  let ?mix = "map_channels (spec_reverb_row ?d decay) signal"
  from assms(4) obtain r rs where r: "channels signal = r # rs"
    by (cases "channels signal") auto
  with assms(1) have "length r = total_samples signal"
    by (simp add: rectangular_def)
  with assms(5) have "spec_reverb_row ?d decay r \<noteq> []"
    using length_spec_reverb_row [of ?d decay r] by (auto simp add: num_reflections_def)
  with r have "flatten ?mix \<noteq> []"
    by (simp add: flatten_empty_iff channels_map_channels)
  then show ?thesis
    unfolding reverb_normalizes_spec [OF assms(1-3)] by (simp add: peak_normalize_returns_iff)
qed


text \<open>
  C4, as the specification states it, fails: the delay in samples is truncated, not
  rounded. At 44100 Hz a delay of 56 ms is 2469.6 samples, which the code takes as 2469:
  one sample becomes 12346 samples, not \<open>1 + 5 * 2470 = 12351\<close>.
\<close>

theorem reverb_length_counterexample:
  "map_sum id (\<lambda>out. map length (channels out)) (reverb (Mono [1]) 44100 (1 / 2) 56) = Inr [12346] \<and>
   1 + 5 * nat (round (real_of_int (44100 * 56) / 1000 :: real)) = (12351 :: nat)"
proof -
  have h: "rectangular (Mono [1])" "(0::int) \<le> 44100" "(0::int) \<le> 56"
    by (simp_all add: rectangular_def)
  have d: "delay_in_samples 44100 56 = 2469"
    by (simp add: delay_in_samples_def py_int_def)
  from reverb_returns [OF h, of "1 / 2"] obtain out
    where out: "reverb (Mono [1]) 44100 (1 / 2) 56 = Inr out"
    by (auto simp add: d)
  from reverb_shape [OF h out] have "ndim out = 1" "\<forall>row \<in> set (channels out). length row = 12346"
    by (simp_all add: d)
  then have "map length (channels out) = [12346]"
    by (cases out) simp_all
  with out show ?thesis
    by (simp add: round_def)
qed


text \<open>
  C4, amended. For a buffer of \<open>N\<close> samples per channel, a sample rate and a delay that are
  not negative, and any decay: the delay in samples is \<open>sr * delay_ms div 1000\<close>
  (truncation); the mix, before normalisation, is on every channel the reverb of the
  specification (zeros, the signal in the first \<open>N\<close> samples, and for \<open>i = 1..5\<close> the signal
  scaled by \<open>decay ^ i\<close> added from offset \<open>delay_samples * i\<close>); \<open>reverb\<close> returns the mix
  normalised to the peak 0.95; every channel of what it returns has
  \<open>N + 5 * delay_samples\<close> samples; and it does return when the output has a sample.
\<close>

theorem reverb_mix_and_length:
  assumes "rectangular signal" and "0 \<le> sr" and "0 \<le> delay_ms"
  shows "delay_in_samples sr delay_ms = sr * delay_ms div 1000 \<and>
         reverb_mix signal sr decay delay_ms
           = Inr (map_channels (spec_reverb_row (nat (delay_in_samples sr delay_ms)) decay) signal) \<and>
         reverb signal sr decay delay_ms
           = peak_normalize
               (map_channels (spec_reverb_row (nat (delay_in_samples sr delay_ms)) decay) signal)
               default_target_peak \<and>
         (\<forall>out. reverb signal sr decay delay_ms = Inr out \<longrightarrow>
            ndim out = ndim signal \<and> length (channels out) = length (channels signal) \<and>
            (\<forall>row \<in> set (channels out).
               length row = total_samples signal + 5 * nat (delay_in_samples sr delay_ms))) \<and>
         (channels signal \<noteq> [] \<and> 0 < total_samples signal + 5 * nat (delay_in_samples sr delay_ms) \<longrightarrow>
            (\<exists>out. reverb signal sr decay delay_ms = Inr out))"
proof (intro conjI allI impI)
  show "delay_in_samples sr delay_ms = sr * delay_ms div 1000"
    by (rule delay_in_samples_div(1) [OF assms(2,3)])
  show "reverb_mix signal sr decay delay_ms
          = Inr (map_channels (spec_reverb_row (nat (delay_in_samples sr delay_ms)) decay) signal)"
    by (rule reverb_mix_spec [OF assms])
  show "reverb signal sr decay delay_ms
          = peak_normalize
              (map_channels (spec_reverb_row (nat (delay_in_samples sr delay_ms)) decay) signal)
              default_target_peak"
    by (rule reverb_normalizes_spec [OF assms])
next
  fix out assume out: "reverb signal sr decay delay_ms = Inr out"
  note sh = reverb_shape [OF assms out]
  show "ndim out = ndim signal" using sh by simp
  show "length (channels out) = length (channels signal)" using sh by simp
  show "\<forall>row \<in> set (channels out).
          length row = total_samples signal + 5 * nat (delay_in_samples sr delay_ms)"
    using sh by simp
next
  assume "channels signal \<noteq> [] \<and> 0 < total_samples signal + 5 * nat (delay_in_samples sr delay_ms)"
  then show "\<exists>out. reverb signal sr decay delay_ms = Inr out"
    using reverb_returns [OF assms] by simp
qed

lemma spec_reverb_row_example:
  "spec_reverb_row 2 (1 / 2) [1, 2] = [1, 2, 1 / 2, 1, 1 / 4, 1 / 2, 1 / 8, 1 / 4, 1 / 16, 1 / 8, 1 / 32, 1 / 16]"
  by code_simp

lemma reverb_mix_example:
  "reverb_mix (Mono [1, 2]) 1000 (1 / 2) 2 = Inr (Mono [1, 2, 1 / 2, 1, 1 / 4, 1 / 2, 1 / 8, 1 / 4, 1 / 16, 1 / 8, 1 / 32, 1 / 16])"
  by code_simp

theorem reverb_mix_and_length_witness:
  "rectangular (Mono [1, 2]) \<and> (0::int) \<le> 1000 \<and> (0::int) \<le> 2 \<and>
   delay_in_samples 1000 2 = 2 \<and>
   reverb_mix (Mono [1, 2]) 1000 (1 / 2) 2
     = Inr (Mono [1, 2, 1 / 2, 1, 1 / 4, 1 / 2, 1 / 8, 1 / 4, 1 / 16, 1 / 8, 1 / 32, 1 / 16]) \<and>
   (\<exists>out. reverb (Mono [1, 2]) 1000 (1 / 2) 2 = Inr out \<and> map length (channels out) = [12])"
proof -
  have h: "rectangular (Mono [1, 2])" "(0::int) \<le> 1000" "(0::int) \<le> 2"
    by (simp_all add: rectangular_def)
  note t = reverb_mix_and_length [OF h, where decay = "1 / 2"]
  from t have d: "delay_in_samples 1000 2 = 2"
    by simp
  from t have mix: "reverb_mix (Mono [1, 2]) 1000 (1 / 2) 2
     = Inr (Mono [1, 2, 1 / 2, 1, 1 / 4, 1 / 2, 1 / 8, 1 / 4, 1 / 16, 1 / 8, 1 / 32, 1 / 16])"
    by (simp add: d spec_reverb_row_example)
  have "channels (Mono [1, 2]) \<noteq> [] \<and>
        0 < total_samples (Mono [1, 2]) + 5 * nat (delay_in_samples 1000 2)"
    by (simp add: d)
  with t have "\<exists>out. reverb (Mono [1, 2]) 1000 (1 / 2) 2 = Inr out"
    by blast
  then obtain out where out: "reverb (Mono [1, 2]) 1000 (1 / 2) 2 = Inr out" ..
  with t have "ndim out = ndim (Mono [1, 2])"
    "\<forall>row \<in> set (channels out).
       length row = total_samples (Mono [1, 2]) + 5 * nat (delay_in_samples 1000 2)"
    by blast+
  then have "ndim out = 1" "\<forall>row \<in> set (channels out). length row = 12"
    by (simp_all add: d)
  then have len: "map length (channels out) = [12]"
    by (cases out) simp_all
  have ex: "\<exists>out. reverb (Mono [1, 2]) 1000 (1 / 2) 2 = Inr out \<and>
                 map length (channels out) = [12]"
  proof (intro exI conjI)
    show "reverb (Mono [1, 2]) 1000 (1 / 2) 2 = Inr out" by (rule out)
    show "map length (channels out) = [12]" by (rule len)
  qed
  from h d mix ex show ?thesis
    by (intro conjI)
qed

subsection \<open>Equalizer\<close>

lemma sos_sections_empty_iff:
  "sos_sections bands gains sr = [] \<longleftrightarrow> (\<forall>band \<in> set bands. inactive gains sr band)"
  by (induction bands gains sr rule: sos_sections.induct) (auto simp add: inactive_def Let_def)

lemma validated_defaults:
  assumes "\<forall>name. params name = None \<or> params name = Some 0"
  shows "\<exists>v. validated EqualizerParams params = Inr v \<and>
             (\<forall>name \<in> set (map fst BANDS). v name = 0)"
proof -
  have "\<not> (case f of (name, dflt, ok) \<Rightarrow>
                  case params name of None \<Rightarrow> dflt = None | Some v \<Rightarrow> \<not> ok v)"
    if "f \<in> set EqualizerParams" for f
  proof -
    from that obtain name where f: "f = (name, Some 0, \<lambda>v. - 12 \<le> v \<and> v \<le> 12)"
      unfolding EqualizerParams_def by auto
    from assms have "params name = None \<or> params name = Some 0" ..
    then show ?thesis unfolding f by auto
  qed
  then have ok: "invalid_fields EqualizerParams params = []"
    by (simp add: invalid_fields_def filter_empty_conv)
  let ?v = "\<lambda>name. case params name of
                  Some v \<Rightarrow> v
                | None \<Rightarrow> (case map_of EqualizerParams name of Some (Some d, ok) \<Rightarrow> d | _ \<Rightarrow> 0)"
  have "?v name = 0" if "name \<in> set (map fst BANDS)" for name
  proof (cases "params name")
    case None
    with that show ?thesis by (auto simp add: BANDS_def EqualizerParams_def)
  next
    case (Some a)
    with assms [rule_format, of name] show ?thesis by simp
  qed
  with ok show ?thesis by (simp add: validated_def)
qed

text \<open>
  C7. When every band is inactive (the absolute value of its gain is below 0.01 dB, or its
  centre frequency is at or above \<open>sr / 2\<close>), \<open>equalizer\<close> returns the input as it is,
  without filtering and without normalisation, whatever the sample rate. This is so without
  a dictionary of gains, with an empty one, and through the dispatcher when every gain of
  the request is absent (the default 0 dB) or 0.
\<close>

theorem equalizer_bypass:
  "((\<forall>band \<in> set BANDS. inactive gains sr band) \<longrightarrow>
      equalizer ext signal sr (Some gains) = Inr signal) \<and>
   equalizer ext signal sr None = Inr signal \<and>
   equalizer ext signal sr (Some Map.empty) = Inr signal \<and>
   ((\<forall>name. params name = None \<or> params name = Some 0) \<longrightarrow>
      apply_effect ext signal sr EQUALIZER params = Inr signal)"
proof (intro conjI impI)
  show "equalizer ext signal sr (Some gains) = Inr signal"
    if "\<forall>band \<in> set BANDS. inactive gains sr band"
    using that by (simp add: equalizer_def sos_sections_empty_iff)
  have e: "\<forall>band \<in> set BANDS. inactive Map.empty sr band"
    by (simp add: inactive_def)
  then show "equalizer ext signal sr None = Inr signal"
    by (simp add: equalizer_def sos_sections_empty_iff)
  from e show "equalizer ext signal sr (Some Map.empty) = Inr signal"
    by (simp add: equalizer_def sos_sections_empty_iff)
  show "apply_effect ext signal sr EQUALIZER params = Inr signal"
    if "\<forall>name. params name = None \<or> params name = Some 0"
  proof -
    from validated_defaults [OF that] obtain v
      where v: "validated EqualizerParams params = Inr v"
        and z: "\<forall>name \<in> set (map fst BANDS). v name = 0"
      by blast
    let ?g = "[''sub_bass'' \<mapsto> v ''sub_bass'', ''bass'' \<mapsto> v ''bass'',
                ''low_mid'' \<mapsto> v ''low_mid'', ''mid'' \<mapsto> v ''mid'',
                ''high_mid'' \<mapsto> v ''high_mid'', ''presence'' \<mapsto> v ''presence'',
                ''brilliance'' \<mapsto> v ''brilliance'']"
    from z have "\<forall>band \<in> set BANDS. inactive ?g sr band"
      by (simp add: inactive_def BANDS_def)
    then have "equalizer ext signal sr (Some ?g) = Inr signal"
      by (simp add: equalizer_def sos_sections_empty_iff)
    with v show ?thesis by simp
  qed
qed

theorem equalizer_bypass_witness:
  "list_all (inactive [''bass'' \<mapsto> 1 / 200, ''brilliance'' \<mapsto> 6] 22050) BANDS \<and>
   equalizer \<lparr>librosa_pitch_shift = \<lambda>y sr n. Inr y, sosfilt = \<lambda>sos x. Inr (map (\<lambda>v. 2 * v) x)\<rparr>
     (Multi [[1 / 2, - 1 / 4], [0, 1 / 8]]) 22050 (Some [''bass'' \<mapsto> 1 / 200, ''brilliance'' \<mapsto> 6])
     = Inr (Multi [[1 / 2, - 1 / 4], [0, 1 / 8]]) \<and>
   (\<forall>name. [''mid'' \<mapsto> 0 :: real] name = None \<or> [''mid'' \<mapsto> 0 :: real] name = Some 0) \<and>
   apply_effect \<lparr>librosa_pitch_shift = \<lambda>y sr n. Inr y, sosfilt = \<lambda>sos x. Inr (map (\<lambda>v. 2 * v) x)\<rparr>
     (Mono [1 / 2, - 1 / 4]) 44100 EQUALIZER [''mid'' \<mapsto> 0] = Inr (Mono [1 / 2, - 1 / 4])"
proof -
  have a: "\<forall>band \<in> set BANDS. inactive [''bass'' \<mapsto> 1 / 200, ''brilliance'' \<mapsto> 6] 22050 band"
    by (simp add: BANDS_def inactive_def)
  have b: "\<forall>name. [''mid'' \<mapsto> 0 :: real] name = None \<or> [''mid'' \<mapsto> 0 :: real] name = Some 0"
    by simp
  have a': "list_all (inactive [''bass'' \<mapsto> 1 / 200, ''brilliance'' \<mapsto> 6] 22050) BANDS"
    using a by (simp add: list_all_iff)
  from a a' b
    equalizer_bypass [of "[''bass'' \<mapsto> 1 / 200, ''brilliance'' \<mapsto> 6]" 22050
      "\<lparr>librosa_pitch_shift = \<lambda>y sr n. Inr y, sosfilt = \<lambda>sos x. Inr (map (\<lambda>v. 2 * v) x)\<rparr>"
      "Multi [[1 / 2, - 1 / 4], [0, 1 / 8]]" "[''mid'' \<mapsto> 0]"]
    equalizer_bypass [of "[''bass'' \<mapsto> 1 / 200, ''brilliance'' \<mapsto> 6]" 44100
      "\<lparr>librosa_pitch_shift = \<lambda>y sr n. Inr y, sosfilt = \<lambda>sos x. Inr (map (\<lambda>v. 2 * v) x)\<rparr>"
      "Mono [1 / 2, - 1 / 4]" "[''mid'' \<mapsto> 0]"]
  show ?thesis by blast
qed

subsection \<open>Stereo widening\<close>

lemma stereo_widen_mono_form:
  assumes "0 \<le> sr" "0 \<le> delay_ms"
  shows "\<exists>nl nr.
           stereo_widen (Mono x) sr delay_ms G
             = peak_normalize (Multi [nl, nr]) default_target_peak \<and>
           length nl = length x + nat (delay_in_samples sr delay_ms) \<and>
           length nr = length x + nat (delay_in_samples sr delay_ms) \<and>
           (\<forall>j < length x + nat (delay_in_samples sr delay_ms).
              nl ! j = ((x @ replicate (nat (delay_in_samples sr delay_ms)) 0) ! j
                         + (replicate (nat (delay_in_samples sr delay_ms)) 0 @ x) ! j * 10 powr (- G / 20)) / 2
                     + ((x @ replicate (nat (delay_in_samples sr delay_ms)) 0) ! j
                         - (replicate (nat (delay_in_samples sr delay_ms)) 0 @ x) ! j * 10 powr (- G / 20)) / 2 * (13 / 10) \<and>
              nr ! j = ((x @ replicate (nat (delay_in_samples sr delay_ms)) 0) ! j
                         + (replicate (nat (delay_in_samples sr delay_ms)) 0 @ x) ! j * 10 powr (- G / 20)) / 2
                     - ((x @ replicate (nat (delay_in_samples sr delay_ms)) 0) ! j
                         - (replicate (nat (delay_in_samples sr delay_ms)) 0 @ x) ! j * 10 powr (- G / 20)) / 2 * (13 / 10))"
proof -
  let ?d = "nat (delay_in_samples sr delay_ms)"
  let ?g = "10 powr (- G / 20)"
  let ?L = "x @ replicate ?d 0"
  let ?R = "map (\<lambda>v. v * ?g) (replicate ?d 0 @ x)"
  let ?mid = "map2 (\<lambda>l r. (l + r) / 2) ?L ?R"
  let ?side = "map (\<lambda>v. v * (13 / 10)) (map2 (\<lambda>l r. (l - r) / 2) ?L ?R)"
  let ?nl = "map2 (+) ?mid ?side"
  let ?nr = "map2 (-) ?mid ?side"
  have ds: "0 \<le> delay_in_samples sr delay_ms"
    using assms by (rule delay_in_samples_div)
  then have z: "np_zeros (delay_in_samples sr delay_ms) = Inr (replicate ?d 0)"
    by (simp add: np_zeros_def)
  have len: "length ?nl = length x + ?d" "length ?nr = length x + ?d"
    by simp_all
  have "stereo_widen (Mono x) sr delay_ms G = peak_normalize (Multi [?nl, ?nr]) default_target_peak"
    using z len by (simp add: stereo_widen_def Let_def del: map_append)
  moreover have "?nl ! j = (?L ! j + (replicate ?d 0 @ x) ! j * ?g) / 2
                     + (?L ! j - (replicate ?d 0 @ x) ! j * ?g) / 2 * (13 / 10) \<and>
                 ?nr ! j = (?L ! j + (replicate ?d 0 @ x) ! j * ?g) / 2
                     - (?L ! j - (replicate ?d 0 @ x) ! j * ?g) / 2 * (13 / 10)"
    if "j < length x + ?d" for j
    using that by (simp del: map_append replicate_append_same)
  ultimately show ?thesis
    using len by blast
qed

lemma gain_factor_less_one: "0 < G \<Longrightarrow> 10 powr (- G / 20) < (1::real)"
  using powr_less_mono [of "- G / 20" 0 "10::real"] by simp

lemma delayed_differs:
  fixes x :: "real list"
  assumes "\<exists>v \<in> set x. v \<noteq> 0" "g \<noteq> 1"
  shows "\<exists>j < length x + d. (x @ replicate d 0) ! j \<noteq> (replicate d 0 @ x) ! j * g"
proof -
  from assms(1) have "\<exists>k. k < length x \<and> x ! k \<noteq> 0"
    by (metis in_set_conv_nth)
  then obtain k where k: "k < length x" "x ! k \<noteq> 0"
    and least: "\<forall>m < k. \<not> (m < length x \<and> x ! m \<noteq> 0)"
    unfolding exists_least_iff [of "\<lambda>k. k < length x \<and> x ! k \<noteq> 0"] by blast
  have L: "(x @ replicate d 0) ! k = x ! k"
    using k(1) by (simp add: nth_append)
  have "(replicate d 0 @ x) ! k * g \<noteq> x ! k"
  proof (cases "k < d")
    case True
    then show ?thesis using k(2) by (simp add: nth_append)
  next
    case False
    show ?thesis
    proof (cases "d = 0")
      case True
      then show ?thesis using k(2) assms(2) by simp
    next
      case d: False
      with False have "k - d < k" by simp
      with least k(1) have "x ! (k - d) = 0" by auto
      with False k(2) show ?thesis by (simp add: nth_append)
    qed
  qed
  with L k(1) show ?thesis
    by (intro exI [of _ k]) simp
qed

lemma peak_normalize_two_channels:
  assumes "peak_normalize (Multi [nl, nr]) t = Inr out" "t \<noteq> 0"
  shows "\<exists>l r. out = Multi [l, r] \<and> length l = length nl \<and> length r = length nr \<and>
               (l = r \<longleftrightarrow> nl = nr)"
proof -
  from assms(1) obtain p where p: "peak (Multi [nl, nr]) = Inr p"
    by (cases "peak (Multi [nl, nr])") (simp_all add: peak_normalize_def)
  show ?thesis
  proof (cases "p = 0")
    case True
    with p assms(1) have "out = Multi [nl, nr]" by (simp add: peak_normalize_def)
    then show ?thesis by simp
  next
    case False
    let ?f = "\<lambda>v::real. v * (t / p)"
    from False assms(2) have "inj ?f"
      by (simp add: inj_on_def)
    then have "map ?f nl = map ?f nr \<longleftrightarrow> nl = nr"
      by (rule inj_map_eq_map)
    moreover from p False assms(1) have "out = Multi [map ?f nl, map ?f nr]"
      by (simp add: peak_normalize_def)
    ultimately show ?thesis by simp
  qed
qed


lemma silent_delayed:
  fixes x :: "real list"
  assumes "\<forall>v \<in> set x. v = 0" "j < length x + d"
  shows "(x @ replicate d 0) ! j = 0" "(replicate d 0 @ x) ! j = 0"
proof -
  have "x ! i = 0" if "i < length x" for i
    using assms(1) that by simp
  with assms(2) show "(x @ replicate d 0) ! j = 0" "(replicate d 0 @ x) ! j = 0"
    by (simp_all add: nth_append)
qed

lemma peak_silent:
  assumes "flatten s \<noteq> []" "\<forall>v \<in> set (flatten s). v = 0"
  shows "peak s = Inr 0"
proof -
  from assms have "set (map abs (flatten s)) = {0}"
    by (cases "flatten s") auto
  with assms(1) show ?thesis
    by (simp add: peak_def np_max_Inr_iff)
qed

lemma stereo_widen_silent:
  assumes "0 \<le> sr" "0 \<le> delay_ms" "\<forall>v \<in> set x. v = 0"
    and "0 < length x + nat (delay_in_samples sr delay_ms)"
  shows "stereo_widen (Mono x) sr delay_ms G
           = Inr (Multi [replicate (length x + nat (delay_in_samples sr delay_ms)) 0,
                         replicate (length x + nat (delay_in_samples sr delay_ms)) 0])"
proof -
  let ?n = "length x + nat (delay_in_samples sr delay_ms)"
  from stereo_widen_mono_form [OF assms(1,2), of x G] obtain nl nr
    where sw: "stereo_widen (Mono x) sr delay_ms G
                 = peak_normalize (Multi [nl, nr]) default_target_peak"
      and len: "length nl = ?n" "length nr = ?n"
      and nth: "\<forall>j < ?n.
              nl ! j = ((x @ replicate (nat (delay_in_samples sr delay_ms)) 0) ! j
                         + (replicate (nat (delay_in_samples sr delay_ms)) 0 @ x) ! j * 10 powr (- G / 20)) / 2
                     + ((x @ replicate (nat (delay_in_samples sr delay_ms)) 0) ! j
                         - (replicate (nat (delay_in_samples sr delay_ms)) 0 @ x) ! j * 10 powr (- G / 20)) / 2 * (13 / 10) \<and>
              nr ! j = ((x @ replicate (nat (delay_in_samples sr delay_ms)) 0) ! j
                         + (replicate (nat (delay_in_samples sr delay_ms)) 0 @ x) ! j * 10 powr (- G / 20)) / 2
                     - ((x @ replicate (nat (delay_in_samples sr delay_ms)) 0) ! j
                         - (replicate (nat (delay_in_samples sr delay_ms)) 0 @ x) ! j * 10 powr (- G / 20)) / 2 * (13 / 10)"
    by blast
  have z: "nl ! j = 0 \<and> nr ! j = 0" if "j < ?n" for j
    using nth that silent_delayed [OF assms(3) that] by simp
  have nl: "nl = replicate ?n 0"
    using len z by (intro nth_equalityI) simp_all
  have nr: "nr = replicate ?n 0"
    using len z by (intro nth_equalityI) simp_all
  have "peak (Multi [nl, nr]) = Inr 0"
    using assms(4) unfolding nl nr by (intro peak_silent) auto
  then show ?thesis
    unfolding sw by (simp add: peak_normalize_def nl nr)
qed

text \<open>
  C9, as the specification states it, fails on a silent input: with the default gain
  difference of 1.5 dB, three zero samples at 44100 Hz and 10 ms give two channels of 444
  zeros, which are identical.
\<close>

theorem stereo_widen_silent_counterexample:
  "stereo_widen (Mono [0, 0, 0]) 44100 10 (3 / 2)
     = Inr (Multi [replicate 444 0, replicate 444 0])"
proof -
  have d: "delay_in_samples 44100 10 = 441"
    by (simp add: delay_in_samples_def py_int_def)
  have "stereo_widen (Mono [0, 0, 0]) 44100 10 (3 / 2)
          = Inr (Multi [replicate (length [0, 0, 0 :: real] + nat (delay_in_samples 44100 10)) 0,
                        replicate (length [0, 0, 0 :: real] + nat (delay_in_samples 44100 10)) 0])"
    by (rule stereo_widen_silent) (simp_all add: d)
  then show ?thesis by (simp add: d)
qed

text \<open>
  C9, amended. For a mono input of \<open>N\<close> samples, a sample rate and a delay that are not
  negative: \<open>stereo_widen\<close> returns (when the output has a sample) an array of two channels
  of \<open>N + delay_samples\<close> samples each, \<open>delay_samples\<close> being \<open>sr * delay_ms / 1000\<close>
  truncated; when \<open>gain_diff_db > 0\<close> and the input has a sample that is not zero the two
  channels differ; when the input is silent they are identical.
\<close>

theorem stereo_widen_mono:
  assumes "0 \<le> sr" and "0 \<le> delay_ms"
  shows "delay_in_samples sr delay_ms = sr * delay_ms div 1000 \<and>
         (0 < length x + nat (delay_in_samples sr delay_ms) \<longrightarrow>
            (\<exists>out. stereo_widen (Mono x) sr delay_ms gain_diff_db = Inr out)) \<and>
         (\<forall>out. stereo_widen (Mono x) sr delay_ms gain_diff_db = Inr out \<longrightarrow>
            (\<exists>l r. out = Multi [l, r] \<and>
                   length l = length x + nat (delay_in_samples sr delay_ms) \<and>
                   length r = length x + nat (delay_in_samples sr delay_ms) \<and>
                   (0 < gain_diff_db \<and> (\<exists>v \<in> set x. v \<noteq> 0) \<longrightarrow> l \<noteq> r) \<and>
                   ((\<forall>v \<in> set x. v = 0) \<longrightarrow> l = r)))"
proof -
  let ?d = "nat (delay_in_samples sr delay_ms)"
  let ?n = "length x + ?d"
  let ?g = "10 powr (- gain_diff_db / 20)"
  let ?L = "\<lambda>j. (x @ replicate ?d 0) ! j"
  let ?R = "\<lambda>j. (replicate ?d 0 @ x) ! j * ?g"
  from stereo_widen_mono_form [OF assms, of x gain_diff_db] obtain nl nr
    where sw: "stereo_widen (Mono x) sr delay_ms gain_diff_db
                 = peak_normalize (Multi [nl, nr]) default_target_peak"
      and len: "length nl = ?n" "length nr = ?n"
      and nth: "\<forall>j < ?n. nl ! j = (?L j + ?R j) / 2 + (?L j - ?R j) / 2 * (13 / 10) \<and>
                         nr ! j = (?L j + ?R j) / 2 - (?L j - ?R j) / 2 * (13 / 10)"
    by blast
  have differ: "nl \<noteq> nr" if "0 < gain_diff_db" "\<exists>v \<in> set x. v \<noteq> 0"
  proof -
    from that(1) have "?g \<noteq> 1"
      using gain_factor_less_one [of gain_diff_db] by simp
    from delayed_differs [OF that(2) this, of ?d] obtain j where j: "j < ?n" "?L j \<noteq> ?R j"
      by blast
    with nth have "nl ! j - nr ! j = (?L j - ?R j) * (13 / 10)"
      by simp
    with j(2) have "nl ! j \<noteq> nr ! j" by simp
    then show ?thesis by auto
  qed
  have same: "nl = nr" if "\<forall>v \<in> set x. v = 0"
  proof (rule nth_equalityI)
    show "length nl = length nr" using len by simp
  next
    fix j assume "j < length nl"
    then have j: "j < ?n" using len by simp
    from silent_delayed [OF that j] nth j show "nl ! j = nr ! j" by simp
  qed
  have ret: "\<exists>out. stereo_widen (Mono x) sr delay_ms gain_diff_db = Inr out" if "0 < ?n"
  proof -
    from that len have "flatten (Multi [nl, nr]) \<noteq> []" by auto
    then show ?thesis unfolding sw by (simp add: peak_normalize_returns_iff)
  qed
  have shape: "\<exists>l r. out = Multi [l, r] \<and> length l = ?n \<and> length r = ?n \<and>
                   (0 < gain_diff_db \<and> (\<exists>v \<in> set x. v \<noteq> 0) \<longrightarrow> l \<noteq> r) \<and>
                   ((\<forall>v \<in> set x. v = 0) \<longrightarrow> l = r)"
    if "stereo_widen (Mono x) sr delay_ms gain_diff_db = Inr out" for out
  proof -
    from that have "peak_normalize (Multi [nl, nr]) default_target_peak = Inr out"
      by (simp add: sw)
    from peak_normalize_two_channels [OF this] obtain l r
      where "out = Multi [l, r]" "length l = length nl" "length r = length nr" "l = r \<longleftrightarrow> nl = nr"
      by (auto simp add: default_target_peak_def)
    with len differ same show ?thesis by auto
  qed
  from delay_in_samples_div(1) [OF assms] ret shape show ?thesis
    by blast
qed

theorem stereo_widen_mono_witness:
  "(0::int) \<le> 1000 \<and> (0::int) \<le> 5 \<and> (0::real) < 3 / 2 \<and> (\<exists>v \<in> set [1, 0 :: real]. v \<noteq> 0) \<and>
   delay_in_samples 1000 5 = 5 \<and>
   (\<exists>l r. stereo_widen (Mono [1, 0]) 1000 5 (3 / 2) = Inr (Multi [l, r]) \<and>
      length l = 7 \<and> length r = 7 \<and> l \<noteq> r)"
proof -
  have h: "(0::int) \<le> 1000" "(0::int) \<le> 5" by simp_all
  have g: "(0::real) < 3 / 2" and v: "\<exists>v \<in> set [1, 0 :: real]. v \<noteq> 0" by simp_all
  note t = stereo_widen_mono [OF h, of "[1, 0]" "3 / 2"]
  from t have d: "delay_in_samples 1000 5 = 5" by simp
  from t d obtain out where out: "stereo_widen (Mono [1, 0]) 1000 5 (3 / 2) = Inr out"
    by auto
  with t g v d obtain l r where "out = Multi [l, r]" "length l = 7" "length r = 7" "l \<noteq> r"
    by auto
  with out have "\<exists>l r. stereo_widen (Mono [1, 0]) 1000 5 (3 / 2) = Inr (Multi [l, r]) \<and>
      length l = 7 \<and> length r = 7 \<and> l \<noteq> r"
    by auto
  with h g v d show ?thesis by (intro conjI)
qed

subsection \<open>8D audio\<close>

lemma pan_in_range:
  fixes intensity :: real
  assumes "\<bar>intensity\<bar> \<le> 1"
  shows "0 \<le> 1 / 2 + intensity * (1 / 2 + 1 / 2 * sin a - 1 / 2)"
    and "1 / 2 + intensity * (1 / 2 + 1 / 2 * sin a - 1 / 2) \<le> 1"
proof -
  have "\<bar>intensity * sin a\<bar> \<le> 1 * 1"
    unfolding abs_mult using assms by (intro mult_mono) simp_all
  then have "- 1 \<le> intensity * sin a" "intensity * sin a \<le> 1"
    by (simp_all add: abs_le_iff)
  then show "0 \<le> 1 / 2 + intensity * (1 / 2 + 1 / 2 * sin a - 1 / 2)"
    and "1 / 2 + intensity * (1 / 2 + 1 / 2 * sin a - 1 / 2) \<le> 1"
    by (simp_all add: algebra_simps)
qed

lemma eight_d_pan_returns:
  assumes "to_stereo signal = Inr (left, right)" "length left = length right"
    and "sr \<noteq> 0" "\<bar>intensity\<bar> \<le> 1"
  shows "\<exists>left_out right_out.
           eight_d_pan signal sr pan_speed_hz intensity = Inr (left_out, right_out) \<and>
           length left_out = length left \<and> length right_out = length left"
  using assms(1,2,3) pan_in_range [OF assms(4)]
  by (auto simp add: eight_d_pan_def Let_def list_ex_iff not_less)

lemma crossfeed_step_sequential:
  assumes "0 \<le> crossfeed" "length left_out = length right_out"
  shows "crossfeed_step crossfeed (left_out, right_out)
           = (map2 (\<lambda>l r. l * (1 - crossfeed) + r * crossfeed) left_out right_out,
              map2 (\<lambda>r l. r * (1 - crossfeed) + l * crossfeed) right_out
                (map2 (\<lambda>l r. l * (1 - crossfeed) + r * crossfeed) left_out right_out))"
proof (cases "0 < crossfeed")
  case True
  then show ?thesis by (simp add: crossfeed_step_def Let_def)
next
  case False
  with assms have c: "crossfeed = 0" by simp
  have a: "map2 (\<lambda>l r. l) xs ys = xs" if "length xs = length ys" for xs ys :: "real list"
    using that by (induction xs ys rule: list_induct2) simp_all
  from assms(2) show ?thesis
    by (simp add: crossfeed_step_def c a)
qed

lemma crossfeed_nth:
  fixes left_out right_out :: "real list"
  assumes "length left_out = length right_out" "n < length left_out"
  shows "map2 (\<lambda>l r. l * (1 - c) + r * c) left_out right_out ! n
           = left_out ! n * (1 - c) + right_out ! n * c"
    and "map2 (\<lambda>r l. r * (1 - c) + l * c) right_out
           (map2 (\<lambda>l r. l * (1 - c) + r * c) left_out right_out) ! n
           = right_out ! n * (1 - c) + (left_out ! n * (1 - c) + right_out ! n * c) * c"
  using assms by simp_all


text \<open>
  C8. For a mono buffer, or a buffer of two or more rows of one length, a sample rate
  that is not zero, an intensity within \<open>[-1, 1]\<close> and a crossfeed that is not negative
  (the bounds of the request are within these), \<open>eight_d_audio\<close> pans the signal into
  \<open>left_out\<close> and \<open>right_out\<close> and then feeds them across in sequence: the new left channel
  is \<open>left_out * (1 - crossfeed) + right_out * crossfeed\<close>, and the new right channel is
  \<open>right_out * (1 - crossfeed) + left * crossfeed\<close> with \<open>left\<close> the new left channel, not
  the panned one, which differs from the symmetric blend by
  \<open>crossfeed\<^sup>2 * (right_out - left_out)\<close>. The result is these two channels, normalised; each
  has the \<open>N\<close> samples of the input, and the function returns when \<open>N > 0\<close>.
\<close>

theorem eight_d_crossfeed_sequential:
  assumes "to_stereo signal = Inr (left, right)" and "length left = length right"
    and "sr \<noteq> 0" and "\<bar>intensity\<bar> \<le> 1" and "0 \<le> crossfeed"
  shows "\<exists>left_out right_out left_fed right_fed.
           eight_d_pan signal sr pan_speed_hz intensity = Inr (left_out, right_out) \<and>
           length left_out = length left \<and> length right_out = length left \<and>
           left_fed = map2 (\<lambda>l r. l * (1 - crossfeed) + r * crossfeed) left_out right_out \<and>
           right_fed = map2 (\<lambda>r l. r * (1 - crossfeed) + l * crossfeed) right_out left_fed \<and>
           crossfeed_step crossfeed (left_out, right_out) = (left_fed, right_fed) \<and>
           eight_d_audio signal sr pan_speed_hz intensity crossfeed
             = peak_normalize (Multi [left_fed, right_fed]) default_target_peak \<and>
           length left_fed = length left \<and> length right_fed = length left \<and>
           (\<forall>n < length left.
              left_fed ! n = left_out ! n * (1 - crossfeed) + right_out ! n * crossfeed \<and>
              right_fed ! n = right_out ! n * (1 - crossfeed) + left_fed ! n * crossfeed \<and>
              right_fed ! n = right_out ! n * (1 - crossfeed) + left_out ! n * crossfeed
                                + crossfeed * crossfeed * (right_out ! n - left_out ! n)) \<and>
           (\<forall>out. eight_d_audio signal sr pan_speed_hz intensity crossfeed = Inr out \<longrightarrow>
              (\<exists>l r. out = Multi [l, r] \<and> length l = length left \<and> length r = length left)) \<and>
           (0 < length left \<longrightarrow>
              (\<exists>out. eight_d_audio signal sr pan_speed_hz intensity crossfeed = Inr out))"
proof -
  from eight_d_pan_returns [OF assms(1-4), of pan_speed_hz] obtain left_out right_out
    where pan: "eight_d_pan signal sr pan_speed_hz intensity = Inr (left_out, right_out)"
      and len: "length left_out = length left" "length right_out = length left"
    by blast
  let ?lf = "map2 (\<lambda>l r. l * (1 - crossfeed) + r * crossfeed) left_out right_out"
  let ?rf = "map2 (\<lambda>r l. r * (1 - crossfeed) + l * crossfeed) right_out ?lf"
  have eq: "length left_out = length right_out" using len by simp
  have step: "crossfeed_step crossfeed (left_out, right_out) = (?lf, ?rf)"
    by (rule crossfeed_step_sequential [OF assms(5) eq])
  have lens: "length ?lf = length left" "length ?rf = length left"
    using len by simp_all
  have audio: "eight_d_audio signal sr pan_speed_hz intensity crossfeed
                 = peak_normalize (Multi [?lf, ?rf]) default_target_peak"
    using lens by (simp add: eight_d_audio_def pan step)
  have nth: "?lf ! n = left_out ! n * (1 - crossfeed) + right_out ! n * crossfeed \<and>
             ?rf ! n = right_out ! n * (1 - crossfeed) + ?lf ! n * crossfeed \<and>
             ?rf ! n = right_out ! n * (1 - crossfeed) + left_out ! n * crossfeed
                         + crossfeed * crossfeed * (right_out ! n - left_out ! n)"
    if "n < length left" for n
  proof -
    from that len have n: "n < length left_out" by simp
    note cn = crossfeed_nth [OF eq n, of crossfeed]
    have "?rf ! n = right_out ! n * (1 - crossfeed) + ?lf ! n * crossfeed"
      unfolding cn ..
    moreover have "right_out ! n * (1 - crossfeed)
                     + (left_out ! n * (1 - crossfeed) + right_out ! n * crossfeed) * crossfeed
                   = right_out ! n * (1 - crossfeed) + left_out ! n * crossfeed
                         + crossfeed * crossfeed * (right_out ! n - left_out ! n)"
      by (simp add: algebra_simps)
    ultimately show ?thesis using cn by simp
  qed
  have shape: "\<exists>l r. out = Multi [l, r] \<and> length l = length left \<and> length r = length left"
    if "eight_d_audio signal sr pan_speed_hz intensity crossfeed = Inr out" for out
  proof -
    from that have "peak_normalize (Multi [?lf, ?rf]) default_target_peak = Inr out"
      by (simp add: audio)
    from peak_normalize_two_channels [OF this] lens show ?thesis
      by (auto simp add: default_target_peak_def)
  qed
  have ret: "\<exists>out. eight_d_audio signal sr pan_speed_hz intensity crossfeed = Inr out"
    if "0 < length left"
  proof -
    from that lens have "flatten (Multi [?lf, ?rf]) \<noteq> []" by auto
    then show ?thesis unfolding audio by (simp add: peak_normalize_returns_iff)
  qed
  from pan len step audio lens nth shape ret show ?thesis
    by blast
qed

theorem eight_d_crossfeed_sequential_witness:
  "to_stereo (Mono [1, - 1]) = Inr ([1, - 1], [1, - 1]) \<and> length [1, - 1 :: real] = length [1, - 1 :: real] \<and>
   (44100 :: int) \<noteq> 0 \<and> \<bar>8 / 10 :: real\<bar> \<le> 1 \<and> (0 :: real) \<le> 3 / 10 \<and>
   (\<exists>l r. eight_d_audio (Mono [1, - 1]) 44100 (15 / 100) (8 / 10) (3 / 10) = Inr (Multi [l, r]) \<and>
      length l = 2 \<and> length r = 2)"
proof -
  have h: "to_stereo (Mono [1, - 1]) = Inr ([1, - 1], [1, - 1])"
    "length [1, - 1 :: real] = length [1, - 1 :: real]"
    "(44100 :: int) \<noteq> 0" "\<bar>8 / 10 :: real\<bar> \<le> 1" "(0 :: real) \<le> 3 / 10"
    by simp_all
  from eight_d_crossfeed_sequential [OF h, of "15 / 100"]
  have ret: "\<exists>out. eight_d_audio (Mono [1, - 1]) 44100 (15 / 100) (8 / 10) (3 / 10) = Inr out"
    and shape: "\<forall>out. eight_d_audio (Mono [1, - 1]) 44100 (15 / 100) (8 / 10) (3 / 10) = Inr out \<longrightarrow>
              (\<exists>l r. out = Multi [l, r] \<and> length l = length [1, - 1 :: real]
                        \<and> length r = length [1, - 1 :: real])"
    by auto
  from ret obtain out where out: "eight_d_audio (Mono [1, - 1]) 44100 (15 / 100) (8 / 10) (3 / 10) = Inr out" ..
  with shape obtain l r where "out = Multi [l, r]" "length l = 2" "length r = 2"
    by auto
  with out have "\<exists>l r. eight_d_audio (Mono [1, - 1]) 44100 (15 / 100) (8 / 10) (3 / 10) = Inr (Multi [l, r]) \<and>
      length l = 2 \<and> length r = 2"
    by auto
  with h show ?thesis by (intro conjI)
qed

subsection \<open>The dispatcher and the pipeline\<close>

lemma then_do_eq_Inr: "then_do r f = Inr y \<longleftrightarrow> (\<exists>x. r = Inr x \<and> f x = Inr y)"
  by (cases r) simp_all

lemma peak_normalized_peak:
  assumes "peak_normalize m t = Inr out" "0 \<le> t"
  shows "peak out = Inr 0 \<or> peak out = Inr t"
proof -
  from assms(1) obtain p where p: "peak m = Inr p"
    by (cases "peak m") (simp_all add: peak_normalize_def)
  show ?thesis
  proof (cases "p = 0")
    case True
    with p assms(1) show ?thesis by (simp add: peak_normalize_def)
  next
    case False
    with p assms(1) have "out = smap (\<lambda>x. x * (t / p)) m"
      by (simp add: peak_normalize_def)
    with peak_normalize_peak [OF p False, of t] assms(2) show ?thesis by simp
  qed
qed

lemma pitch_shift_normalized:
  "pitch_shift ext signal sr semitones = Inr out \<Longrightarrow>
     \<exists>m. peak_normalize m default_target_peak = Inr out"
  unfolding pitch_shift_def then_do_eq_Inr by blast

lemma reverb_normalized:
  "reverb signal sr decay delay_ms = Inr out \<Longrightarrow>
     \<exists>m. peak_normalize m default_target_peak = Inr out"
  unfolding reverb_def then_do_eq_Inr by blast

lemma stereo_widen_normalized:
  "stereo_widen signal sr delay_ms gain_diff_db = Inr out \<Longrightarrow>
     \<exists>m. peak_normalize m default_target_peak = Inr out"
  by (auto simp add: stereo_widen_def Let_def then_do_eq_Inr split: prod.splits if_splits)

lemma eight_d_audio_normalized:
  "eight_d_audio signal sr pan_speed_hz intensity crossfeed = Inr out \<Longrightarrow>
     \<exists>m. peak_normalize m default_target_peak = Inr out"
proof -
  assume "eight_d_audio signal sr pan_speed_hz intensity crossfeed = Inr out"
  then obtain panned where
    "(case crossfeed_step crossfeed panned of (left_out, right_out) \<Rightarrow>
        then_do (np_stack [left_out, right_out]) (\<lambda>output.
          peak_normalize output default_target_peak)) = Inr out"
    unfolding eight_d_audio_def then_do_eq_Inr by blast
  moreover obtain l r where "crossfeed_step crossfeed panned = (l, r)"
    by (cases "crossfeed_step crossfeed panned")
  ultimately have "then_do (np_stack [l, r]) (\<lambda>output.
          peak_normalize output default_target_peak) = Inr out"
    by simp
  then show ?thesis
    unfolding then_do_eq_Inr by blast
qed

lemma equalizer_normalized:
  assumes "equalizer ext signal sr gains = Inr out"
    and "\<not> (\<forall>band \<in> set BANDS.
               inactive (case gains of None \<Rightarrow> Map.empty | Some g \<Rightarrow> g) sr band)"
  shows "\<exists>m. peak_normalize m default_target_peak = Inr out"
proof -
  from assms(2) have "sos_sections BANDS (case gains of None \<Rightarrow> Map.empty | Some g \<Rightarrow> g) sr \<noteq> []"
    by (simp add: sos_sections_empty_iff)
  with assms(1) show ?thesis
    unfolding equalizer_def Let_def by (auto simp add: then_do_eq_Inr)
qed

lemma normalizing_effect:
  assumes "effect \<in> {PITCH_SHIFT, REVERB, STEREO_WIDEN, EIGHT_D_AUDIO}"
    and "apply_effect ext signal sr effect params = Inr out"
  shows "\<exists>m. peak_normalize m default_target_peak = Inr out"
proof -
  from assms(1) consider "effect = PITCH_SHIFT" | "effect = REVERB" | "effect = STEREO_WIDEN"
    | "effect = EIGHT_D_AUDIO" by blast
  then show ?thesis
  proof cases
    case 1
    with assms(2) show ?thesis
      by (auto simp add: then_do_eq_Inr dest: pitch_shift_normalized)
  next
    case 2
    with assms(2) show ?thesis
      by (auto simp add: then_do_eq_Inr dest: reverb_normalized)
  next
    case 3
    with assms(2) show ?thesis
      by (auto simp add: then_do_eq_Inr dest: stereo_widen_normalized)
  next
    case 4
    with assms(2) show ?thesis
      by (auto simp add: then_do_eq_Inr dest: eight_d_audio_normalized)
  qed
qed

lemma default_target_peak_nonneg: "0 \<le> default_target_peak"
  by (simp add: default_target_peak_def)

lemma set_py_slice: "set (py_slice xs a b) \<subseteq> set xs"
  unfolding py_slice_def Let_def
  by (meson set_take_subset set_drop_subset subset_trans)

lemma trim_audio_samples:
  assumes "trim_audio signal sr s e = Inr out"
  shows "set (flatten out) \<subseteq> set (flatten signal)"
proof (cases signal)
  case (Mono xs)
  with assms obtain a b where "out = Mono (py_slice xs a b)"
    by (auto simp add: trim_audio_def Let_def split: if_splits)
  with Mono show ?thesis
    using set_py_slice [of xs a b] by simp
next
  case (Multi rows)
  with assms obtain a b where "out = Multi (map (\<lambda>row. py_slice row a b) rows)"
    by (auto simp add: trim_audio_def Let_def split: if_splits)
  with Multi show ?thesis
    using set_py_slice by fastforce
qed

lemma reverse_audio_samples: "set (flatten (reverse_audio signal sr)) = set (flatten signal)"
  by (cases signal) auto

text \<open>
  C5, as the specification states it, fails: \<open>reverse_audio\<close> returns the reversed samples
  as they are. A buffer of peak 0.5 comes back with peak 0.5, not 0.95.
\<close>

theorem reverse_not_normalized_counterexample:
  "reverse_audio (Mono [1 / 4, - 1 / 2]) 44100 = Mono [- 1 / 2, 1 / 4] \<and>
   peak (reverse_audio (Mono [1 / 4, - 1 / 2]) 44100) = Inr (1 / 2)"
  by (simp add: peak_def)

text \<open>
  C5, amended. The normaliser is the last step of the pipeline, not of every effect
  function: whatever the effect, a buffer returned by \<open>process_audio\<close> is silent or has
  peak 0.95. Of the effect functions, pitch shift, reverb, stereo widening and 8D audio
  end in the normaliser themselves, and so does the equalizer when a band is active;
  reverse and trim (like the equalizer without an active band) return samples of the input,
  unscaled.
\<close>

theorem pipeline_normalizes_every_effect:
  "(\<forall>out. process_audio ext signal sr effect params = Inr out \<longrightarrow>
      peak out = Inr 0 \<or> peak out = Inr (95 / 100)) \<and>
   (effect \<in> {PITCH_SHIFT, REVERB, STEREO_WIDEN, EIGHT_D_AUDIO} \<longrightarrow>
      (\<forall>out. apply_effect ext signal sr effect params = Inr out \<longrightarrow>
         peak out = Inr 0 \<or> peak out = Inr (95 / 100))) \<and>
   (\<forall>out. equalizer ext signal sr gains = Inr out \<and>
          \<not> (\<forall>band \<in> set BANDS.
                inactive (case gains of None \<Rightarrow> Map.empty | Some g \<Rightarrow> g) sr band) \<longrightarrow>
      peak out = Inr 0 \<or> peak out = Inr (95 / 100)) \<and>
   (effect \<in> {REVERSE, TRIM} \<longrightarrow>
      (\<forall>out. apply_effect ext signal sr effect params = Inr out \<longrightarrow>
         set (flatten out) \<subseteq> set (flatten signal)))"
proof (intro conjI allI impI)
  fix out assume "process_audio ext signal sr effect params = Inr out"
  then obtain m where "peak_normalize m default_target_peak = Inr out"
    unfolding process_audio_def then_do_eq_Inr by blast
  from peak_normalized_peak [OF this default_target_peak_nonneg]
  show "peak out = Inr 0 \<or> peak out = Inr (95 / 100)"
    by (simp add: default_target_peak_def)
next
  fix out assume "effect \<in> {PITCH_SHIFT, REVERB, STEREO_WIDEN, EIGHT_D_AUDIO}"
    and "apply_effect ext signal sr effect params = Inr out"
  from normalizing_effect [OF this] obtain m
    where "peak_normalize m default_target_peak = Inr out" ..
  from peak_normalized_peak [OF this default_target_peak_nonneg]
  show "peak out = Inr 0 \<or> peak out = Inr (95 / 100)"
    by (simp add: default_target_peak_def)
next
  fix out assume "equalizer ext signal sr gains = Inr out \<and>
          \<not> (\<forall>band \<in> set BANDS.
                inactive (case gains of None \<Rightarrow> Map.empty | Some g \<Rightarrow> g) sr band)"
  then obtain m where "peak_normalize m default_target_peak = Inr out"
    using equalizer_normalized by blast
  from peak_normalized_peak [OF this default_target_peak_nonneg]
  show "peak out = Inr 0 \<or> peak out = Inr (95 / 100)"
    by (simp add: default_target_peak_def)
next
  fix out assume "effect \<in> {REVERSE, TRIM}"
    and out: "apply_effect ext signal sr effect params = Inr out"
  then consider "effect = REVERSE" | "effect = TRIM" by blast
  then show "set (flatten out) \<subseteq> set (flatten signal)"
  proof cases
    case 1
    with out show ?thesis by (auto simp add: reverse_audio_samples)
  next
    case 2
    with out show ?thesis
      by (auto simp add: then_do_eq_Inr dest!: trim_audio_samples)
  qed
qed

lemma example_reverse:
  "apply_effect \<lparr>librosa_pitch_shift = \<lambda>y sr n. Inr y, sosfilt = \<lambda>sos x. Inr x\<rparr> (Mono [1 / 4, - 1 / 2]) 44100 REVERSE Map.empty = Inr (Mono [- 1 / 2, 1 / 4])"
  by simp

lemma example_pitch_shift:
  "apply_effect \<lparr>librosa_pitch_shift = \<lambda>y sr n. Inr y, sosfilt = \<lambda>sos x. Inr x\<rparr> (Mono [1 / 4, - 1 / 2]) 44100 PITCH_SHIFT Map.empty
     = Inr (Mono [19 / 40, - 19 / 20])"
  by (simp add: pitch_shift_def validated_def invalid_fields_def PitchShiftParams_def
      peak_normalize_def peak_def default_target_peak_def)

lemma example_equalizer:
  "equalizer \<lparr>librosa_pitch_shift = \<lambda>y sr n. Inr y, sosfilt = \<lambda>sos x. Inr x\<rparr> (Mono [1 / 4, - 1 / 2]) 44100 (Some [''bass'' \<mapsto> 6])
     = Inr (Mono [19 / 40, - 19 / 20])"
  by (simp add: equalizer_def BANDS_def peak_normalize_def peak_def default_target_peak_def)

lemma example_process_reverse:
  "process_audio \<lparr>librosa_pitch_shift = \<lambda>y sr n. Inr y, sosfilt = \<lambda>sos x. Inr x\<rparr> (Mono [1 / 4, - 1 / 2]) 44100 REVERSE Map.empty
     = Inr (Mono [- 19 / 20, 19 / 40])"
  by (simp add: process_audio_def peak_normalize_def peak_def default_target_peak_def)

lemma example_normalize:
  "peak_normalize (Mono [1 / 4, - 1 / 2]) (95 / 100) = Inr (Mono [19 / 40, - 19 / 20])"
  by (simp add: peak_normalize_def peak_def)

theorem pipeline_normalizes_every_effect_witness:
  "process_audio \<lparr>librosa_pitch_shift = \<lambda>y sr n. Inr y, sosfilt = \<lambda>sos x. Inr x\<rparr> (Mono [1 / 4, - 1 / 2]) 44100 REVERSE Map.empty
     = Inr (Mono [- 19 / 20, 19 / 40]) \<and>
   peak (Mono [- 19 / 20, 19 / 40]) = Inr (95 / 100) \<and>
   PITCH_SHIFT \<in> {PITCH_SHIFT, REVERB, STEREO_WIDEN, EIGHT_D_AUDIO} \<and>
   apply_effect \<lparr>librosa_pitch_shift = \<lambda>y sr n. Inr y, sosfilt = \<lambda>sos x. Inr x\<rparr> (Mono [1 / 4, - 1 / 2]) 44100 PITCH_SHIFT Map.empty
     = Inr (Mono [19 / 40, - 19 / 20]) \<and>
   peak (Mono [19 / 40, - 19 / 20]) = Inr (95 / 100) \<and>
   equalizer \<lparr>librosa_pitch_shift = \<lambda>y sr n. Inr y, sosfilt = \<lambda>sos x. Inr x\<rparr> (Mono [1 / 4, - 1 / 2]) 44100 (Some [''bass'' \<mapsto> 6])
     = Inr (Mono [19 / 40, - 19 / 20]) \<and>
   \<not> (\<forall>band \<in> set BANDS. inactive [''bass'' \<mapsto> 6] 44100 band) \<and>
   REVERSE \<in> {REVERSE, TRIM} \<and>
   apply_effect \<lparr>librosa_pitch_shift = \<lambda>y sr n. Inr y, sosfilt = \<lambda>sos x. Inr x\<rparr> (Mono [1 / 4, - 1 / 2]) 44100 REVERSE Map.empty = Inr (Mono [- 1 / 2, 1 / 4]) \<and>
   set (flatten (Mono [- 1 / 2, 1 / 4])) \<subseteq> set (flatten (Mono [1 / 4, - 1 / 2]))"
proof -
  have m1: "PITCH_SHIFT \<in> {PITCH_SHIFT, REVERB, STEREO_WIDEN, EIGHT_D_AUDIO}"
    and m2: "REVERSE \<in> {REVERSE, TRIM}"
    by simp_all
  note a = pipeline_normalizes_every_effect
    [of "\<lparr>librosa_pitch_shift = \<lambda>y sr n. Inr y, sosfilt = \<lambda>sos x. Inr x\<rparr>" "Mono [1 / 4, - 1 / 2]" 44100 REVERSE Map.empty None]
  note b = pipeline_normalizes_every_effect
    [of "\<lparr>librosa_pitch_shift = \<lambda>y sr n. Inr y, sosfilt = \<lambda>sos x. Inr x\<rparr>" "Mono [1 / 4, - 1 / 2]" 44100 PITCH_SHIFT Map.empty None]
  have "peak (Mono [- 19 / 20, 19 / 40]) = Inr 0 \<or> peak (Mono [- 19 / 20, 19 / 40]) = Inr (95 / 100)"
    by (rule a [THEN conjunct1, rule_format, OF example_process_reverse])
  then have p1: "peak (Mono [- 19 / 20, 19 / 40]) = Inr (95 / 100)"
    by (simp add: peak_def)
  have active: "\<not> (\<forall>band \<in> set BANDS. inactive [''bass'' \<mapsto> 6] 44100 band)"
    by (simp add: BANDS_def inactive_def)
  then have active': "\<not> (\<forall>band \<in> set BANDS.
      inactive (case Some [''bass'' \<mapsto> 6] of None \<Rightarrow> Map.empty | Some g \<Rightarrow> g) 44100 band)"
    by simp
  note c = pipeline_normalizes_every_effect
    [of "\<lparr>librosa_pitch_shift = \<lambda>y sr n. Inr y, sosfilt = \<lambda>sos x. Inr x\<rparr>" "Mono [1 / 4, - 1 / 2]" 44100 EQUALIZER Map.empty "Some [''bass'' \<mapsto> 6]"]
  have "peak (Mono [19 / 40, - 19 / 20]) = Inr 0 \<or> peak (Mono [19 / 40, - 19 / 20]) = Inr (95 / 100)"
    by (rule c [THEN conjunct2, THEN conjunct2, THEN conjunct1, rule_format,
          OF conjI [OF example_equalizer active']])
  then have p3: "peak (Mono [19 / 40, - 19 / 20]) = Inr (95 / 100)"
    by (simp add: peak_def)
  have "peak (Mono [19 / 40, - 19 / 20]) = Inr 0 \<or> peak (Mono [19 / 40, - 19 / 20]) = Inr (95 / 100)"
    by (rule b [THEN conjunct2, THEN conjunct1, rule_format, OF m1 example_pitch_shift])
  then have p2: "peak (Mono [19 / 40, - 19 / 20]) = Inr (95 / 100)"
    by (simp add: peak_def)
  have s: "set (flatten (Mono [- 1 / 2, 1 / 4])) \<subseteq> set (flatten (Mono [1 / 4, - 1 / 2]))"
    by (rule a [THEN conjunct2, THEN conjunct2, THEN conjunct2, rule_format, OF m2 example_reverse])
  from example_process_reverse p1 m1 example_pitch_shift p2 example_equalizer active
    m2 example_reverse s
  show ?thesis by (intro conjI)
qed


text \<open>
  C10. \<open>peak_normalize\<close> is idempotent for a target peak that is not negative (a peak is an
  absolute value): normalising its result again, to the same target, returns that result,
  and an error stays that error. So the second pass of the pipeline changes nothing after
  an effect that has normalised its result already: for pitch shift, reverb, stereo
  widening and 8D audio, \<open>process_audio\<close> returns what the effect function returns.
\<close>

theorem peak_normalize_idempotent:
  "(0 \<le> target_peak \<longrightarrow>
      then_do (peak_normalize b target_peak) (\<lambda>b'. peak_normalize b' target_peak)
        = peak_normalize b target_peak) \<and>
   (effect \<in> {PITCH_SHIFT, REVERB, STEREO_WIDEN, EIGHT_D_AUDIO} \<longrightarrow>
      process_audio ext signal sr effect params = apply_effect ext signal sr effect params)"
proof (intro conjI impI)
  assume "0 \<le> target_peak"
  then show "then_do (peak_normalize b target_peak) (\<lambda>b'. peak_normalize b' target_peak)
               = peak_normalize b target_peak"
    by (cases "peak_normalize b target_peak") (simp_all add: peak_normalize_again)
next
  assume e: "effect \<in> {PITCH_SHIFT, REVERB, STEREO_WIDEN, EIGHT_D_AUDIO}"
  show "process_audio ext signal sr effect params = apply_effect ext signal sr effect params"
  proof (cases "apply_effect ext signal sr effect params")
    case (Inl err)
    then show ?thesis by (simp add: process_audio_def)
  next
    case (Inr out)
    from normalizing_effect [OF e Inr] obtain m
      where "peak_normalize m default_target_peak = Inr out" ..
    from peak_normalize_again [OF default_target_peak_nonneg this] Inr show ?thesis
      by (simp add: process_audio_def)
  qed
qed


theorem peak_normalize_idempotent_witness:
  "(0 :: real) \<le> 95 / 100 \<and>
   peak_normalize (Mono [1 / 4, - 1 / 2]) (95 / 100) = Inr (Mono [19 / 40, - 19 / 20]) \<and>
   peak_normalize (Mono [19 / 40, - 19 / 20]) (95 / 100) = Inr (Mono [19 / 40, - 19 / 20]) \<and>
   PITCH_SHIFT \<in> {PITCH_SHIFT, REVERB, STEREO_WIDEN, EIGHT_D_AUDIO} \<and>
   process_audio \<lparr>librosa_pitch_shift = \<lambda>y sr n. Inr y, sosfilt = \<lambda>sos x. Inr x\<rparr> (Mono [1 / 4, - 1 / 2]) 44100 PITCH_SHIFT Map.empty
     = Inr (Mono [19 / 40, - 19 / 20])"
proof -
  have n: "(0 :: real) \<le> 95 / 100"
    and m: "PITCH_SHIFT \<in> {PITCH_SHIFT, REVERB, STEREO_WIDEN, EIGHT_D_AUDIO}"
    by simp_all
  note t = peak_normalize_idempotent
    [of "95 / 100" "Mono [1 / 4, - 1 / 2]" PITCH_SHIFT "\<lparr>librosa_pitch_shift = \<lambda>y sr n. Inr y, sosfilt = \<lambda>sos x. Inr x\<rparr>" "Mono [1 / 4, - 1 / 2]" 44100 Map.empty]
  have again: "peak_normalize (Mono [19 / 40, - 19 / 20]) (95 / 100) = Inr (Mono [19 / 40, - 19 / 20])"
    using t [THEN conjunct1, rule_format, OF n] unfolding example_normalize then_do_Inr .
  have "process_audio \<lparr>librosa_pitch_shift = \<lambda>y sr n. Inr y, sosfilt = \<lambda>sos x. Inr x\<rparr> (Mono [1 / 4, - 1 / 2]) 44100 PITCH_SHIFT Map.empty
     = Inr (Mono [19 / 40, - 19 / 20])"
    by (rule trans [OF t [THEN conjunct2, rule_format, OF m] example_pitch_shift])
  with n example_normalize again m show ?thesis by (intro conjI)
qed

end
